theory Spec2Isabelle
  imports Main "HOL-Library.Word"
begin

section \<open>Strings and buffers of the runtime\<close>

text \<open>
  A string of the program is a list of 16-bit code units. The API key, the one string
  that the program encodes to bytes and decodes back, is modelled so: \<open>jsstring\<close>. The
  other strings (messages, titles, ids, the stored ciphertext) are modelled as
  \<open>string\<close>, which covers the strings whose code units are below 256 (ASCII and the
  Latin-1 supplement). \<open>length\<close> counts code units, as the \<open>length\<close> property of the
  program's strings does. A \<open>Buffer\<close> is a list of bytes.
\<close>

type_synonym byte = "8 word"
type_synonym buffer = "byte list"
type_synonym codeUnit = "16 word"
type_synonym jsstring = "codeUnit list"

text \<open>A string of code units below 256, as a \<open>jsstring\<close>.\<close>

definition utf16 :: "string \<Rightarrow> jsstring" where
  "utf16 s = map (\<lambda>c. of_nat (of_char c)) s"

text \<open>\<open>String.prototype.split(sep)\<close> for a separator of one code unit: the fields between
  the separators, empty fields included; the empty string has one (empty) field.\<close>

fun js_split :: "char \<Rightarrow> string \<Rightarrow> string list" where
  "js_split sep [] = [[]]"
| "js_split sep (c # cs) =
     (if c = sep then [] # js_split sep cs
      else (case js_split sep cs of
              [] \<Rightarrow> [[c]]
            | w # ws \<Rightarrow> (c # w) # ws))"

text \<open>\<open>Array.prototype.join(sep)\<close>.\<close>

fun js_join :: "string \<Rightarrow> string list \<Rightarrow> string" where
  "js_join sep [] = []"
| "js_join sep [w] = w"
| "js_join sep (w # v # ws) = w @ sep @ js_join sep (v # ws)"

text \<open>The white space and line terminators that \<open>trim\<close> strips, among the code units
  below 256: TAB, LF, VT, FF, CR, SPACE and NO-BREAK SPACE.\<close>

definition isWhiteSpace :: "char \<Rightarrow> bool" where
  "isWhiteSpace c = (c \<in> set [CHR 0x09, CHR 0x0A, CHR 0x0B, CHR 0x0C, CHR 0x0D, CHR 0x20, CHR 0xA0])"

definition trimStart :: "string \<Rightarrow> string" where
  "trimStart s = dropWhile isWhiteSpace s"

definition trimEnd :: "string \<Rightarrow> string" where
  "trimEnd s = rev (dropWhile isWhiteSpace (rev s))"

definition trim :: "string \<Rightarrow> string" where
  "trim s = trimEnd (trimStart s)"

text \<open>\<open>substring(0, n)\<close>, \<open>startsWith\<close> and \<open>includes\<close>.\<close>

definition substring0 :: "nat \<Rightarrow> string \<Rightarrow> string" where
  "substring0 n s = take n s"

definition startsWith :: "'a list \<Rightarrow> 'a list \<Rightarrow> bool" where
  "startsWith s p = (take (length p) s = p)"

fun js_includes :: "string \<Rightarrow> string \<Rightarrow> bool" where
  "js_includes [] k = (k = [])"
| "js_includes (c # cs) k = (startsWith (c # cs) k \<or> js_includes cs k)"

text \<open>\<open>toLowerCase\<close> on code units below 256: the letters A to Z and the capital
  letters of the Latin-1 supplement (U+00C0 to U+00DE, the multiplication sign U+00D7
  apart) move up by 32; every other code unit stays.\<close>

definition lowerChar :: "char \<Rightarrow> char" where
  "lowerChar c =
     (let n = (of_char c :: nat)
      in if (65 \<le> n \<and> n \<le> 90) \<or> (192 \<le> n \<and> n \<le> 222 \<and> n \<noteq> 215)
         then char_of (n + 32) else c)"

definition toLowerCase :: "string \<Rightarrow> string" where
  "toLowerCase s = map lowerChar s"

subsection \<open>UTF-8\<close>

text \<open>\<open>String.prototype.isWellFormed\<close>: every high surrogate is followed by a low
  surrogate, and no low surrogate stands alone. The encoder of the platform
  (\<open>update(text, 'utf8')\<close>, \<open>Buffer.from(s, 'utf8')\<close>) writes a surrogate pair as the
  four bytes of its code point and a lone surrogate as the three bytes of U+FFFD. The
  decoder (\<open>final('utf8')\<close>, \<open>toString('utf8')\<close>) reads the shortest forms only and
  gives U+FFFD for each ill-formed prefix, resuming at the byte that broke it.\<close>

definition isHighSurrogate :: "codeUnit \<Rightarrow> bool" where
  "isHighSurrogate c = (0xD800 \<le> unat c \<and> unat c \<le> 0xDBFF)"

definition isLowSurrogate :: "codeUnit \<Rightarrow> bool" where
  "isLowSurrogate c = (0xDC00 \<le> unat c \<and> unat c \<le> 0xDFFF)"

fun isWellFormed :: "jsstring \<Rightarrow> bool" where
  "isWellFormed [] = True"
| "isWellFormed (c # cs) =
     (if isHighSurrogate c
      then (case cs of [] \<Rightarrow> False | d # ds \<Rightarrow> isLowSurrogate d \<and> isWellFormed ds)
      else \<not> isLowSurrogate c \<and> isWellFormed cs)"

definition replacementBytes :: buffer where
  "replacementBytes = [0xEF, 0xBF, 0xBD]"

fun utf8Encode :: "jsstring \<Rightarrow> buffer" where
  "utf8Encode [] = []"
| "utf8Encode (c # cs) =
     (let u = unat c
      in if u < 0x80 then of_nat u # utf8Encode cs
         else if u < 0x800
         then of_nat (0xC0 + u div 64) # of_nat (0x80 + u mod 64) # utf8Encode cs
         else if isHighSurrogate c
         then (case cs of
                 [] \<Rightarrow> replacementBytes
               | d # ds \<Rightarrow>
                   if isLowSurrogate d
                   then (let cp = 0x10000 + (u - 0xD800) * 1024 + (unat d - 0xDC00)
                         in of_nat (0xF0 + cp div 262144)
                            # of_nat (0x80 + cp div 4096 mod 64)
                            # of_nat (0x80 + cp div 64 mod 64)
                            # of_nat (0x80 + cp mod 64) # utf8Encode ds)
                   else replacementBytes @ utf8Encode cs)
         else if isLowSurrogate c then replacementBytes @ utf8Encode cs
         else of_nat (0xE0 + u div 4096) # of_nat (0x80 + u div 64 mod 64)
              # of_nat (0x80 + u mod 64) # utf8Encode cs)"

definition isContinuation :: "byte \<Rightarrow> bool" where
  "isContinuation b = (0x80 \<le> unat b \<and> unat b \<le> 0xBF)"

fun utf8Decode :: "buffer \<Rightarrow> jsstring" where
  "utf8Decode [] = []"
| "utf8Decode (b # bs) =
     (let b0 = unat b
      in if b0 < 0x80 then of_nat b0 # utf8Decode bs
         else if 0xC2 \<le> b0 \<and> b0 \<le> 0xDF
         then (case bs of
                 [] \<Rightarrow> [0xFFFD]
               | b1 # r1 \<Rightarrow>
                   if isContinuation b1
                   then of_nat ((b0 - 0xC0) * 64 + (unat b1 - 0x80)) # utf8Decode r1
                   else 0xFFFD # utf8Decode bs)
         else if 0xE0 \<le> b0 \<and> b0 \<le> 0xEF
         then (case bs of
                 [] \<Rightarrow> [0xFFFD]
               | b1 # r1 \<Rightarrow>
                   if (if b0 = 0xE0 then 0xA0 else 0x80) \<le> unat b1
                      \<and> unat b1 \<le> (if b0 = 0xED then 0x9F else 0xBF)
                   then (case r1 of
                           [] \<Rightarrow> [0xFFFD]
                         | b2 # r2 \<Rightarrow>
                             if isContinuation b2
                             then of_nat ((b0 - 0xE0) * 4096 + (unat b1 - 0x80) * 64
                                          + (unat b2 - 0x80)) # utf8Decode r2
                             else 0xFFFD # utf8Decode r1)
                   else 0xFFFD # utf8Decode bs)
         else if 0xF0 \<le> b0 \<and> b0 \<le> 0xF4
         then (case bs of
                 [] \<Rightarrow> [0xFFFD]
               | b1 # r1 \<Rightarrow>
                   if (if b0 = 0xF0 then 0x90 else 0x80) \<le> unat b1
                      \<and> unat b1 \<le> (if b0 = 0xF4 then 0x8F else 0xBF)
                   then (case r1 of
                           [] \<Rightarrow> [0xFFFD]
                         | b2 # r2 \<Rightarrow>
                             if isContinuation b2
                             then (case r2 of
                                     [] \<Rightarrow> [0xFFFD]
                                   | b3 # r3 \<Rightarrow>
                                       if isContinuation b3
                                       then (let cp = (b0 - 0xF0) * 262144 + (unat b1 - 0x80) * 4096
                                                      + (unat b2 - 0x80) * 64 + (unat b3 - 0x80)
                                             in of_nat (0xD800 + (cp - 0x10000) div 1024)
                                                # of_nat (0xDC00 + (cp - 0x10000) mod 1024)
                                                # utf8Decode r3)
                                       else 0xFFFD # utf8Decode r2)
                             else 0xFFFD # utf8Decode r1)
                   else 0xFFFD # utf8Decode bs)
         else 0xFFFD # utf8Decode bs)"

subsection \<open>The hex encoding of buffers\<close>

text \<open>\<open>buf.toString('hex')\<close> writes two lower-case digits for each byte.
  \<open>Buffer.from(s, 'hex')\<close> reads pairs of digits of either case and stops, keeping what
  it has read, at the first pair that is not two hex digits or at a single last digit.\<close>

definition hexDigit :: "nat \<Rightarrow> char" where
  "hexDigit n = ''0123456789abcdef'' ! n"

definition byteToHex :: "byte \<Rightarrow> string" where
  "byteToHex b = [hexDigit (unat b div 16), hexDigit (unat b mod 16)]"

definition toHex :: "buffer \<Rightarrow> string" where
  "toHex bs = concat (map byteToHex bs)"

definition hexValue :: "char \<Rightarrow> nat option" where
  "hexValue c =
     (let n = (of_char c :: nat)
      in if 48 \<le> n \<and> n \<le> 57 then Some (n - 48)
         else if 97 \<le> n \<and> n \<le> 102 then Some (n - 87)
         else if 65 \<le> n \<and> n \<le> 70 then Some (n - 55)
         else None)"

fun fromHex :: "string \<Rightarrow> buffer" where
  "fromHex (a # b # rest) =
     (case hexValue a of
        None \<Rightarrow> []
      | Some x \<Rightarrow>
          (case hexValue b of
             None \<Rightarrow> []
           | Some y \<Rightarrow> of_nat (16 * x + y) # fromHex rest))"
| "fromHex _ = []"

text \<open>A string argument with input encoding \<open>hex\<close> of the cipher's \<open>update\<close>: an odd
  number of characters is refused (a throw); otherwise the string is decoded as
  \<open>Buffer.from(s, 'hex')\<close> decodes it.\<close>

definition hexInput :: "string \<Rightarrow> buffer option" where
  "hexInput s = (if odd (length s) then None else Some (fromHex s))"

section \<open>Credential vault (lib/encryption)\<close>

text \<open>
  The vault calls the platform's AES-256-CBC cipher. The cipher is a collaborator of the
  program and is a parameter of the embedding, from bytes to bytes:
  \<open>cipherEncrypt key iv plain\<close> is the ciphertext that \<open>createCipheriv\<close>, \<open>update\<close> and
  \<open>final\<close> produce for the bytes \<open>plain\<close>, and \<open>cipherDecrypt key iv data\<close> the bytes
  that \<open>createDecipheriv\<close>, \<open>update\<close> and \<open>final\<close> recover; \<open>None\<close> is a throw.
  The encodings that the calls name (\<open>utf8\<close> for the text, \<open>hex\<close> for the ciphertext)
  are written out in \<open>encryptApiKey\<close> and \<open>decryptApiKey\<close>. The sixteen random bytes
  of \<open>crypto.randomBytes(16)\<close> are an argument of \<open>encryptApiKey\<close>.
\<close>

record cipher =
  cipherEncrypt :: "string \<Rightarrow> buffer \<Rightarrow> buffer \<Rightarrow> buffer option"
  cipherDecrypt :: "string \<Rightarrow> buffer \<Rightarrow> buffer \<Rightarrow> buffer option"

datatype vault_error = EncryptionError | DecryptionError

definition encryptApiKey :: "cipher \<Rightarrow> string \<Rightarrow> buffer \<Rightarrow> jsstring \<Rightarrow> vault_error + string" where
  "encryptApiKey C key iv text =
     (case cipherEncrypt C key iv (utf8Encode text) of
        None \<Rightarrow> Inl EncryptionError
      | Some encrypted \<Rightarrow> Inr (toHex iv @ '':'' @ toHex encrypted))"

definition decryptApiKey :: "cipher \<Rightarrow> string \<Rightarrow> string \<Rightarrow> vault_error + jsstring" where
  "decryptApiKey C key encryptedText =
     (let parts = js_split (CHR '':'') encryptedText
      in if length parts \<noteq> 2 then Inl DecryptionError
         else (let iv = fromHex (parts ! 0);
                   encrypted = parts ! 1
               in case hexInput encrypted of
                    None \<Rightarrow> Inl DecryptionError
                  | Some data \<Rightarrow>
                      (case cipherDecrypt C key iv data of
                         None \<Rightarrow> Inl DecryptionError
                       | Some decrypted \<Rightarrow> Inr (utf8Decode decrypted))))"

definition validateOpenAIApiKey :: "jsstring \<Rightarrow> bool" where
  "validateOpenAIApiKey apiKey = (startsWith apiKey (utf16 ''sk-'') \<and> length apiKey \<ge> 20)"

text \<open>What the vault needs of the cipher under the process-wide key: with an
  initialization vector of sixteen bytes, encryption of any bytes returns, and decryption
  of what it returns gives the bytes back.\<close>

definition cipherSound :: "cipher \<Rightarrow> string \<Rightarrow> bool" where
  "cipherSound C key =
     (\<forall>iv plain. length iv = 16 \<longrightarrow>
        (\<exists>ct. cipherEncrypt C key iv plain = Some ct \<and> cipherDecrypt C key iv ct = Some plain))"

text \<open>A key and an initialization vector for concrete evaluation, and the values of
  AES-256-CBC (with the padding of the platform) under them at three plaintexts: the
  bytes of \<open>sk-abc\<close>, and the bytes of \<open>sk-0123456789abcdefg\<close> followed by the
  encoding of U+FFFD and by that of U+1F600.\<close>

definition demoKey :: string where
  "demoKey = ''0123456789abcdef0123456789abcdef''"

definition demoIv :: buffer where
  "demoIv = [0x00, 0x11, 0x22, 0x33, 0x44, 0x55, 0x66, 0x77, 0x88, 0x99, 0xAA, 0xBB, 0xCC, 0xDD, 0xEE, 0xFF]"

definition aesSamples :: "(buffer \<times> buffer) list" where
  "aesSamples =
     [([0x73, 0x6B, 0x2D, 0x61, 0x62, 0x63],
       [0x9C, 0x6A, 0xF8, 0xB2, 0x8E, 0x20, 0xA1, 0x06, 0x88, 0xBA, 0x86, 0xEC, 0x65, 0xE9, 0x88, 0x27]),
      ([0x73, 0x6B, 0x2D, 0x30, 0x31, 0x32, 0x33, 0x34, 0x35, 0x36, 0x37, 0x38, 0x39, 0x61, 0x62, 0x63, 0x64, 0x65, 0x66, 0x67, 0xEF, 0xBF, 0xBD],
       [0x41, 0x4D, 0xD6, 0x2E, 0x08, 0x7E, 0x95, 0x96, 0xBF, 0x03, 0xA3, 0x7E, 0x37, 0x38, 0x4E, 0x05, 0x6B, 0xA4, 0x2E, 0x12, 0x4B, 0xFE, 0x38, 0x8B, 0xCF, 0xC1, 0xEB, 0x8B, 0xE9, 0x22, 0xB5, 0x55]),
      ([0x73, 0x6B, 0x2D, 0x30, 0x31, 0x32, 0x33, 0x34, 0x35, 0x36, 0x37, 0x38, 0x39, 0x61, 0x62, 0x63, 0x64, 0x65, 0x66, 0x67, 0xF0, 0x9F, 0x98, 0x80],
       [0x41, 0x4D, 0xD6, 0x2E, 0x08, 0x7E, 0x95, 0x96, 0xBF, 0x03, 0xA3, 0x7E, 0x37, 0x38, 0x4E, 0x05, 0x46, 0x03, 0x8E, 0x9D, 0x6F, 0x58, 0x8B, 0x4E, 0x0C, 0x3D, 0x4E, 0x75, 0xBB, 0x20, 0x0A, 0xCD])]"

text \<open>A stand-in cipher for concrete evaluation. Under \<open>demoKey\<close> and \<open>demoIv\<close> it
  has the values of the platform's cipher at the sample plaintexts and ciphertexts;
  everywhere else the ciphertext is the vector followed by the bytes, and decryption
  checks and strips the vector, so that it is defined for all bytes and decrypts what it
  encrypted.\<close>

definition demoCipher :: cipher where
  "demoCipher =
     \<lparr> cipherEncrypt = (\<lambda>key iv plain.
          if key = demoKey \<and> iv = demoIv
          then (case map_of aesSamples plain of
                  Some ct \<Rightarrow> Some ct
                | None \<Rightarrow> Some (iv @ plain))
          else Some (iv @ plain)),
       cipherDecrypt = (\<lambda>key iv data.
          if key = demoKey \<and> iv = demoIv \<and> data \<in> snd ` set aesSamples
          then map_of (map (\<lambda>(plain, ct). (ct, plain)) aesSamples) data
          else if length iv = 16 \<and> take 16 data = iv then Some (drop 16 data) else None) \<rparr>"

section \<open>The store\<close>

text \<open>
  The relational store behind Prisma: the user table (its ids), the profile table keyed
  by user id, and the conversation and message tables in insertion order. A time stamp
  that the store or the handler takes (\<open>DEFAULT CURRENT_TIMESTAMP\<close>, \<open>new Date()\<close>) is
  the reading of the logical clock \<open>clock\<close>, which every write advances. The ids that
  the store draws for new rows are arguments of the handlers (see \<open>env\<close>). The calls
  to the store return: a call that throws, which the handlers answer with status 500, is
  outside the embedding.
\<close>

datatype role = System | User | Assistant

record userProfile =
  healthGoal :: "string option"
  dietaryPreferences :: "string list"
  fitnessLevel :: "string option"
  openaiApiKeyHash :: "string option"
  hasApiKey :: bool
  profileUpdatedAt :: nat

record conversation =
  conv_id :: string
  conv_userId :: string
  conv_title :: string
  conv_lastMessage :: "string option"
  conv_createdAt :: nat
  conv_updatedAt :: nat

record conversationMessage =
  msg_id :: string
  msg_userId :: string
  msg_conversationId :: string
  msg_role :: role
  msg_content :: string
  msg_createdAt :: nat

record store =
  users :: "string list"
  profiles :: "string \<rightharpoonup> userProfile"
  conversations :: "conversation list"
  conversationMessages :: "conversationMessage list"
  clock :: nat

text \<open>One entry of the list sent to the completion call.\<close>

record chatMessage =
  role :: role
  content :: string

text \<open>\<open>chat.completions.create\<close> throws, or returns the content of the first choice,
  which may be missing.\<close>

datatype completion = Throws | Returns "string option"

text \<open>
  What lies outside the handlers during one request: the session of \<open>auth()\<close>, the
  cipher and the process-wide key, the random bytes of one \<open>encryptApiKey\<close> call, the
  ids drawn for new rows, the rendering of the system prompt from the stored profile and
  pantry (\<open>getUserContext\<close> and \<open>createSystemPrompt\<close>, which no property below looks
  into), and the completion call of the client built from an API key.
\<close>

record env =
  sessionUserId :: "string option"
  vaultCipher :: cipher
  ENCRYPTION_KEY :: string
  randomBytes16 :: buffer
  newConversationId :: string
  newUserMessageId :: string
  newAssistantMessageId :: string
  systemPromptFor :: "store \<Rightarrow> string \<Rightarrow> string"
  completionsCreate :: "jsstring \<Rightarrow> chatMessage list \<Rightarrow> completion"

text \<open>\<open>getAuthenticatedUser\<close>: the session's user id, looked up in the user table.\<close>

definition getAuthenticatedUser :: "env \<Rightarrow> store \<Rightarrow> string option" where
  "getAuthenticatedUser E db =
     (case sessionUserId E of
        None \<Rightarrow> None
      | Some uid \<Rightarrow> if uid = [] then None
                    else if uid \<in> set (users db) then Some uid else None)"

text \<open>\<open>prisma.conversation.findUnique({ where: { id, userId } })\<close>.\<close>

definition findConversation :: "store \<Rightarrow> string \<Rightarrow> string \<Rightarrow> conversation option" where
  "findConversation db cid uid =
     find (\<lambda>c. conv_id c = cid \<and> conv_userId c = uid) (conversations db)"

text \<open>\<open>prisma.conversation.create\<close>, \<open>prisma.conversationMessage.create\<close> and
  \<open>prisma.conversation.update({ where: { id } })\<close>.\<close>

definition createConversation ::
  "string \<Rightarrow> string \<Rightarrow> string \<Rightarrow> string \<Rightarrow> store \<Rightarrow> conversation \<times> store" where
  "createConversation cid title lastMessage uid db =
     (let c = \<lparr> conv_id = cid, conv_userId = uid, conv_title = title,
                 conv_lastMessage = Some lastMessage,
                 conv_createdAt = clock db, conv_updatedAt = clock db \<rparr>
      in (c, db\<lparr> conversations := conversations db @ [c], clock := Suc (clock db) \<rparr>))"

definition createMessage ::
  "string \<Rightarrow> role \<Rightarrow> string \<Rightarrow> string \<Rightarrow> string \<Rightarrow> store \<Rightarrow> conversationMessage \<times> store" where
  "createMessage mid r text uid cid db =
     (let m = \<lparr> msg_id = mid, msg_userId = uid, msg_conversationId = cid,
                 msg_role = r, msg_content = text, msg_createdAt = clock db \<rparr>
      in (m, db\<lparr> conversationMessages := conversationMessages db @ [m],
                  clock := Suc (clock db) \<rparr>))"

definition updateConversation :: "string \<Rightarrow> string \<Rightarrow> store \<Rightarrow> store" where
  "updateConversation cid lastMessage db =
     db\<lparr> conversations :=
           map (\<lambda>c. if conv_id c = cid
                    then c\<lparr> conv_lastMessage := Some lastMessage, conv_updatedAt := clock db \<rparr>
                    else c) (conversations db),
         clock := Suc (clock db) \<rparr>"

text \<open>\<open>prisma.conversationMessage.findMany\<close> with \<open>orderBy: { createdAt: 'desc' }\<close>,
  \<open>take: 10\<close> and the selection of role and content.\<close>

definition findRecentMessages :: "store \<Rightarrow> string \<Rightarrow> string \<Rightarrow> chatMessage list" where
  "findRecentMessages db cid uid =
     map (\<lambda>m. \<lparr> role = msg_role m, content = msg_content m \<rparr>)
       (take 10 (rev (sort_key msg_createdAt
          (filter (\<lambda>m. msg_conversationId m = cid \<and> msg_userId m = uid)
             (conversationMessages db)))))"

section \<open>Assistant turn (app/api/chat/route.ts)\<close>

text \<open>\<open>getUserOpenAIClient\<close>: the client is represented by the decrypted key it is
  built from; every failure, a throw of \<open>decryptApiKey\<close> included, gives \<open>null\<close>.\<close>

definition getUserOpenAIClient :: "env \<Rightarrow> store \<Rightarrow> string \<Rightarrow> jsstring option" where
  "getUserOpenAIClient E db userId =
     (case profiles db userId of
        None \<Rightarrow> None
      | Some userProfile \<Rightarrow>
          if \<not> hasApiKey userProfile then None
          else (case openaiApiKeyHash userProfile of
                  None \<Rightarrow> None
                | Some h \<Rightarrow>
                    if h = [] then None
                    else (case decryptApiKey (vaultCipher E) (ENCRYPTION_KEY E) h of
                            Inl err \<Rightarrow> None
                          | Inr decryptedApiKey \<Rightarrow> Some decryptedApiKey)))"

definition generateConversationTitle :: "string \<Rightarrow> string" where
  "generateConversationTitle message =
     (let words = js_join '' '' (take 4 (js_split (CHR '' '') (trim message)));
          title = (if length words > 30 then substring0 30 words @ ''...'' else words)
      in if trim title = [] then ''New Conversation'' else trim title)"

definition recipeFallback :: string where
  "recipeFallback = ''I'm having trouble connecting to generate a personalized recipe right now. Please try again in a moment, or check that your OpenAI API key is valid.''"

definition workoutFallback :: string where
  "workoutFallback = ''I'm having trouble connecting to generate a personalized workout right now. Please try again in a moment, or check that your OpenAI API key is valid.''"

definition genericFallback :: string where
  "genericFallback = ''I'm having trouble processing your request right now. Please try again in a moment, or check that your OpenAI API key is configured correctly in your profile.''"

text \<open>\<open>generateAIResponse\<close> returns the assistant text (\<open>None\<close> for \<open>null\<close>) and, beside
  it, the list it passed to the completion call.\<close>

definition generateAIResponse ::
  "env \<Rightarrow> jsstring \<Rightarrow> string \<Rightarrow> string \<Rightarrow> chatMessage list \<Rightarrow> string option \<times> chatMessage list" where
  "generateAIResponse E openaiClient userMessage systemPrompt recentMessages =
     (let messages = [\<lparr> role = System, content = systemPrompt \<rparr>]
                     @ map (\<lambda>msg. \<lparr> role = role msg, content = content msg \<rparr>) recentMessages
                     @ [\<lparr> role = User, content = userMessage \<rparr>]
      in (case completionsCreate E openaiClient messages of
            Returns response \<Rightarrow>
              (case response of
                 None \<Rightarrow> None
               | Some text \<Rightarrow> if text = [] then None else Some (trim text))
          | Throws \<Rightarrow>
              if js_includes (toLowerCase userMessage) ''recipe''
                 \<or> js_includes (toLowerCase userMessage) ''meal''
              then Some recipeFallback
              else if js_includes (toLowerCase userMessage) ''workout''
                      \<or> js_includes (toLowerCase userMessage) ''exercise''
              then Some workoutFallback
              else Some genericFallback,
          messages))"

record chat_request =
  req_message :: "string option"
  req_conversationId :: "string option"

record turn_body =
  resp_id :: string
  resp_role :: role
  resp_content :: string
  resp_createdAt :: nat
  resp_conversationId :: string

datatype chat_response = Json200 turn_body | JsonError nat string

text \<open>Lines 277 to 312 of \<open>POST\<close>: the conversation the turn runs in. A given id that is
  not blank is looked up under the caller; without a conversation a new one is created.
  An id that is kept is not empty, so the test \<open>!currentConversationId\<close> is the test
  for \<open>null\<close>.\<close>

definition resolveConversation :: "env \<Rightarrow> store \<Rightarrow> string \<Rightarrow> string \<Rightarrow> string option \<Rightarrow> string \<times> store" where
  "resolveConversation E db uid message conversationId =
     (let currentConversationId =
            (case conversationId of
               None \<Rightarrow> None
             | Some cid \<Rightarrow>
                 if cid \<noteq> [] \<and> trim cid \<noteq> []
                 then (case findConversation db cid uid of
                         None \<Rightarrow> None
                       | Some existingConversation \<Rightarrow> Some cid)
                 else None)
      in case currentConversationId of
           Some cid \<Rightarrow> (cid, db)
         | None \<Rightarrow>
             (let (newConversation, db') =
                createConversation (newConversationId E)
                  (generateConversationTitle message) message uid db
              in (conv_id newConversation, db')))"

text \<open>\<open>POST\<close> returns the response, the store it leaves, and the lists it sent to the
  completion call.\<close>

definition POST :: "env \<Rightarrow> store \<Rightarrow> chat_request \<Rightarrow> chat_response \<times> store \<times> chatMessage list list" where
  "POST E db body =
     (case req_message body of
        None \<Rightarrow> (JsonError 400 ''Message is required'', db, [])
      | Some message \<Rightarrow>
          if message = [] then (JsonError 400 ''Message is required'', db, [])
          else
          (case getAuthenticatedUser E db of
             None \<Rightarrow> (JsonError 401 ''Unauthorized'', db, [])
           | Some uid \<Rightarrow>
               (let (currentConversationId, db1) =
                      resolveConversation E db uid message (req_conversationId body);
                    (userMsg, db2) =
                      createMessage (newUserMessageId E) User message uid currentConversationId db1
                in case getUserOpenAIClient E db2 uid of
                     None \<Rightarrow>
                       (JsonError 400 ''OpenAI API key not configured. Please add your API key in your profile settings.'', db2, [])
                   | Some openaiClient \<Rightarrow>
                       (let systemPrompt = systemPromptFor E db2 uid;
                            recentMessages = findRecentMessages db2 currentConversationId uid;
                            (responseContent, sent) =
                              generateAIResponse E openaiClient message systemPrompt (rev recentMessages)
                        in case responseContent of
                             None \<Rightarrow>
                               (JsonError 500 ''Failed to generate AI response. Please try again.'', db2, [sent])
                           | Some text \<Rightarrow>
                               if text = [] then
                                 (JsonError 500 ''Failed to generate AI response. Please try again.'', db2, [sent])
                               else
                               (let (aiMessage, db3) =
                                      createMessage (newAssistantMessageId E) Assistant text uid currentConversationId db2;
                                    db4 = updateConversation currentConversationId text db3
                                in (Json200 \<lparr> resp_id = msg_id aiMessage, resp_role = Assistant,
                                               resp_content = text,
                                               resp_createdAt = msg_createdAt aiMessage,
                                               resp_conversationId = currentConversationId \<rparr>,
                                    db4, [sent]))))))"

section \<open>Profile update (app/api/profile/route.ts)\<close>

text \<open>The body of a \<open>PUT\<close>: a field is \<open>None\<close> when the body omits it (or gives
  \<open>null\<close>); \<open>body_dietaryPreferences\<close> is \<open>None\<close> when the value is not an array.\<close>

record profile_request =
  body_healthGoal :: "string option"
  body_dietaryPreferences :: "string list option"
  body_fitnessLevel :: "string option"
  body_apiKey :: "jsstring option"

record profile_body =
  out_healthGoal :: string
  out_dietaryPreferences :: "string list"
  out_fitnessLevel :: string
  out_hasApiKey :: bool
  out_updatedAt :: nat

datatype profile_response = ProfileJson200 profile_body | ProfileError nat string

text \<open>\<open>x || null\<close> and \<open>x || ''\<close> on an optional string.\<close>

definition orNull :: "string option \<Rightarrow> string option" where
  "orNull x = (case x of None \<Rightarrow> None | Some s \<Rightarrow> if s = [] then None else Some s)"

definition orEmpty :: "'a list option \<Rightarrow> 'a list" where
  "orEmpty x = (case x of None \<Rightarrow> [] | Some s \<Rightarrow> s)"

text \<open>Modelled from the spec: the default of the credential-present flag of a created
  row, which the schema declares and the sources do not hold; the flag agrees with the
  presence of a ciphertext, so it is false on a row created without one.

  \<open>prisma.userProfile.upsert\<close>: \<open>update\<close> overwrites the fields it is given on the
  stored row, and \<open>create\<close> writes a row whose credential columns, when not given, take
  their defaults (no ciphertext, flag false). The ciphertext is \<open>None\<close> when the
  request carries no API key.\<close>

definition upsertProfile ::
  "string \<Rightarrow> string option \<Rightarrow> string list \<Rightarrow> string option \<Rightarrow> string option \<Rightarrow> store \<Rightarrow> userProfile \<times> store" where
  "upsertProfile uid hg prefs fl encryptedApiKey db =
     (let p = (case profiles db uid of
                 None \<Rightarrow>
                   \<lparr> healthGoal = hg, dietaryPreferences = prefs, fitnessLevel = fl,
                     openaiApiKeyHash = encryptedApiKey,
                     hasApiKey = (encryptedApiKey \<noteq> None),
                     profileUpdatedAt = clock db \<rparr>
               | Some old \<Rightarrow>
                   (let upd = old\<lparr> healthGoal := hg, dietaryPreferences := prefs,
                                    fitnessLevel := fl, profileUpdatedAt := clock db \<rparr>
                    in case encryptedApiKey of
                         None \<Rightarrow> upd
                       | Some e \<Rightarrow> upd\<lparr> openaiApiKeyHash := Some e, hasApiKey := True \<rparr>))
      in (p, db\<lparr> profiles := (profiles db)(uid \<mapsto> p), clock := Suc (clock db) \<rparr>))"

definition PUT :: "env \<Rightarrow> store \<Rightarrow> profile_request \<Rightarrow> profile_response \<times> store" where
  "PUT E db body =
     (case body_dietaryPreferences body of
        None \<Rightarrow> (ProfileError 400 ''dietaryPreferences must be an array'', db)
      | Some prefs \<Rightarrow>
          (let apiKeyGiven = (case body_apiKey body of None \<Rightarrow> False | Some k \<Rightarrow> k \<noteq> [])
           in if apiKeyGiven \<and> \<not> validateOpenAIApiKey (orEmpty (body_apiKey body))
              then (ProfileError 400 ''Invalid OpenAI API key format'', db)
              else
              (case getAuthenticatedUser E db of
                 None \<Rightarrow> (ProfileError 401 ''Unauthorized'', db)
               | Some uid \<Rightarrow>
                   (let encrypted =
                          (if apiKeyGiven
                           then (case encryptApiKey (vaultCipher E) (ENCRYPTION_KEY E)
                                        (randomBytes16 E) (orEmpty (body_apiKey body)) of
                                   Inl err \<Rightarrow> Inl err
                                 | Inr e \<Rightarrow> Inr (Some e))
                           else Inr None)
                    in case encrypted of
                         Inl err \<Rightarrow> (ProfileError 500 ''Failed to encrypt API key'', db)
                       | Inr encryptedApiKey \<Rightarrow>
                           (let (updatedProfile, db') =
                                  upsertProfile uid (orNull (body_healthGoal body)) prefs
                                    (orNull (body_fitnessLevel body)) encryptedApiKey db
                            in (ProfileJson200
                                  \<lparr> out_healthGoal = orEmpty (healthGoal updatedProfile),
                                    out_dietaryPreferences = dietaryPreferences updatedProfile,
                                    out_fitnessLevel = orEmpty (fitnessLevel updatedProfile),
                                    out_hasApiKey = (hasApiKey updatedProfile \<or> apiKeyGiven),
                                    out_updatedAt = profileUpdatedAt updatedProfile \<rparr>,
                                db'))))))"

section \<open>Conversation list of the client (app/lib/hooks/useChat.ts)\<close>

record clientConversation =
  cc_id :: string
  cc_title :: string
  cc_lastMessage :: string
  cc_time :: string

record chatState =
  st_conversations :: "clientConversation list"
  selectedConversation :: "string option"
  st_error :: "string option"

text \<open>The outcome of the request for the list: a failure with its message (a response
  that is not ok, or a throw), or the list the server returned.\<close>

datatype fetch_result = FetchFailed string | FetchOk "clientConversation list"

text \<open>The updater passed to \<open>setConversations\<close> on a reload.\<close>

definition mergeConversations ::
  "clientConversation list \<Rightarrow> clientConversation list \<Rightarrow> clientConversation list" where
  "mergeConversations prev serverConversations =
     (let serverIds = map cc_id serverConversations;
          localOnly = filter (\<lambda>c. cc_id c \<notin> set serverIds \<and> startsWith (cc_id c) ''conv_'') prev
      in localOnly @ serverConversations)"

text \<open>\<open>fetchConversations\<close> returns the new state of the hook and the list it hands to
  its caller.\<close>

definition fetchConversations ::
  "chatState \<Rightarrow> fetch_result \<Rightarrow> chatState \<times> clientConversation list" where
  "fetchConversations st res =
     (case res of
        FetchFailed msg \<Rightarrow> (st\<lparr> st_error := Some msg \<rparr>, [])
      | FetchOk serverConversations \<Rightarrow>
          (let noneSelected = (case selectedConversation st of None \<Rightarrow> True | Some sel \<Rightarrow> sel = [])
           in (st\<lparr> st_conversations := mergeConversations (st_conversations st) serverConversations,
                    selectedConversation :=
                      (case serverConversations of
                         [] \<Rightarrow> selectedConversation st
                       | first # rest \<Rightarrow>
                           if noneSelected then Some (cc_id first) else selectedConversation st),
                    st_error := None \<rparr>,
               serverConversations)))"

section \<open>Conditions named in the properties\<close>

text \<open>The request carries no API key: the field is missing, \<open>null\<close> or empty.\<close>

definition apiKeyOmitted :: "profile_request \<Rightarrow> bool" where
  "apiKeyOmitted body = (case body_apiKey body of None \<Rightarrow> True | Some k \<Rightarrow> k = [])"

text \<open>The turn takes the branch that creates a conversation: no id is given, the id is
  blank, or no conversation of the caller has the id.\<close>

definition startsNewConversation :: "store \<Rightarrow> string \<Rightarrow> string option \<Rightarrow> bool" where
  "startsNewConversation db uid conversationId =
     (case conversationId of
        None \<Rightarrow> True
      | Some cid \<Rightarrow> cid = [] \<or> trim cid = [] \<or> findConversation db cid uid = None)"

text \<open>The stored credential of the user is absent or does not decrypt.\<close>

definition credentialUnusable :: "env \<Rightarrow> store \<Rightarrow> string \<Rightarrow> bool" where
  "credentialUnusable E db uid =
     (case profiles db uid of
        None \<Rightarrow> True
      | Some p \<Rightarrow>
          \<not> hasApiKey p
          \<or> (case openaiApiKeyHash p of
                None \<Rightarrow> True
              | Some h \<Rightarrow> h = []
                    \<or> decryptApiKey (vaultCipher E) (ENCRYPTION_KEY E) h = Inl DecryptionError))"

text \<open>The completion call answers the client of key \<open>k\<close>: whatever it is sent, it
  throws (the fallback answers) or returns a content that is not blank.\<close>

definition completionAnswers :: "env \<Rightarrow> jsstring \<Rightarrow> bool" where
  "completionAnswers E k =
     (\<forall>msgs. case completionsCreate E k msgs of
               Throws \<Rightarrow> True
             | Returns r \<Rightarrow> (case r of None \<Rightarrow> False | Some text \<Rightarrow> trim text \<noteq> []))"

text \<open>The message mentions a keyword: the keyword occurs in its lower-case form.\<close>

definition mentions :: "string \<Rightarrow> string \<Rightarrow> bool" where
  "mentions message keyword = (\<exists>a b. toLowerCase message = a @ keyword @ b)"

text \<open>No stored time stamp is ahead of the clock: every message was created, and every
  conversation last updated, before the present reading.\<close>

definition timestampsPast :: "store \<Rightarrow> bool" where
  "timestampsPast db =
     ((\<forall>m \<in> set (conversationMessages db). msg_createdAt m < clock db)
      \<and> (\<forall>c \<in> set (conversations db). conv_updatedAt c < clock db))"

section \<open>Concrete data for evaluation\<close>

definition demoProfile :: userProfile where
  "demoProfile =
     \<lparr> healthGoal = Some ''Lose weight'', dietaryPreferences = [''vegan''],
       fitnessLevel = Some ''Beginner'',
       openaiApiKeyHash = Some ''00112233445566778899aabbccddeeff:9c6af8b28e20a10688ba86ec65e98827'',
       hasApiKey = True, profileUpdatedAt = 3 \<rparr>"

definition demoConversation :: conversation where
  "demoConversation =
     \<lparr> conv_id = ''cm1'', conv_userId = ''u1'', conv_title = ''Dinner ideas'',
       conv_lastMessage = Some ''Try a lentil soup.'', conv_createdAt = 4, conv_updatedAt = 6 \<rparr>"

definition demoForeignConversation :: conversation where
  "demoForeignConversation =
     \<lparr> conv_id = ''cm2'', conv_userId = ''u2'', conv_title = ''Leg day'',
       conv_lastMessage = Some ''Start with squats.'', conv_createdAt = 7, conv_updatedAt = 9 \<rparr>"

definition demoMessages :: "conversationMessage list" where
  "demoMessages =
     [\<lparr> msg_id = ''m1'', msg_userId = ''u1'', msg_conversationId = ''cm1'', msg_role = User,
        msg_content = ''What should I eat?'', msg_createdAt = 4 \<rparr>,
      \<lparr> msg_id = ''m2'', msg_userId = ''u1'', msg_conversationId = ''cm1'', msg_role = Assistant,
        msg_content = ''Try a lentil soup.'', msg_createdAt = 5 \<rparr>,
      \<lparr> msg_id = ''m3'', msg_userId = ''u2'', msg_conversationId = ''cm2'', msg_role = User,
        msg_content = ''Plan my leg day'', msg_createdAt = 7 \<rparr>,
      \<lparr> msg_id = ''m4'', msg_userId = ''u2'', msg_conversationId = ''cm2'', msg_role = Assistant,
        msg_content = ''Start with squats.'', msg_createdAt = 8 \<rparr>]"

definition demoStore :: store where
  "demoStore =
     \<lparr> users = [''u1'', ''u2''],
       profiles = [''u1'' \<mapsto> demoProfile],
       conversations = [demoConversation, demoForeignConversation],
       conversationMessages = demoMessages,
       clock = 10 \<rparr>"

definition demoEnv :: env where
  "demoEnv =
     \<lparr> sessionUserId = Some ''u1'', vaultCipher = demoCipher, ENCRYPTION_KEY = demoKey,
       randomBytes16 = demoIv,
       newConversationId = ''cm9'', newUserMessageId = ''m9u'', newAssistantMessageId = ''m9a'',
       systemPromptFor = (\<lambda>db uid. ''You are an AI personal trainer and nutritionist assistant.''),
       completionsCreate = (\<lambda>apiKey messages. Returns (Some '' Roast the vegetables. '')) \<rparr>"

definition demoProfileRequest :: profile_request where
  "demoProfileRequest =
     \<lparr> body_healthGoal = None, body_dietaryPreferences = Some [''vegan'', ''gluten-free''],
       body_fitnessLevel = Some ''Advanced'', body_apiKey = None \<rparr>"

definition demoLocal :: clientConversation where
  "demoLocal = \<lparr> cc_id = ''conv_1700000000000'', cc_title = ''New Conversation'',
                 cc_lastMessage = ''Start a new conversation'', cc_time = ''Just now'' \<rparr>"

definition demoStale :: clientConversation where
  "demoStale = \<lparr> cc_id = ''cm1'', cc_title = ''Dinner ideas'',
                 cc_lastMessage = ''What should I eat?'', cc_time = ''5 min ago'' \<rparr>"

definition demoServerList :: "clientConversation list" where
  "demoServerList =
     [\<lparr> cc_id = ''cm1'', cc_title = ''Dinner ideas'',
        cc_lastMessage = ''Try a lentil soup.'', cc_time = ''Just now'' \<rparr>,
      \<lparr> cc_id = ''cm2'', cc_title = ''Leg day'',
        cc_lastMessage = ''Start with squats.'', cc_time = ''2 hours ago'' \<rparr>]"

definition demoChatState :: chatState where
  "demoChatState = \<lparr> st_conversations = [demoLocal, demoStale],
                     selectedConversation = Some ''conv_1700000000000'', st_error = None \<rparr>"

definition demoStaleRequest :: chat_request where
  "demoStaleRequest =
     \<lparr> req_message = Some ''Any meal ideas for tonight?'', req_conversationId = Some ''cm2'' \<rparr>"

definition demoFollowUp :: chat_request where
  "demoFollowUp =
     \<lparr> req_message = Some ''Any MEAL ideas for breakfast?'', req_conversationId = Some ''cm1'' \<rparr>"

definition demoForeignFollowUp :: chat_request where
  "demoForeignFollowUp = \<lparr> req_message = Some ''How many sets?'', req_conversationId = Some ''cm2'' \<rparr>"

definition demoThrowingEnv :: env where
  "demoThrowingEnv = demoEnv\<lparr> completionsCreate := (\<lambda>apiKey messages. Throws) \<rparr>"

definition demoNoCredentialEnv :: env where
  "demoNoCredentialEnv = demoEnv\<lparr> sessionUserId := Some ''u2'' \<rparr>"

definition demoCorruptStore :: store where
  "demoCorruptStore =
     demoStore\<lparr> profiles := [''u1'' \<mapsto> demoProfile\<lparr> openaiApiKeyHash :=
       Some ''00112233445566778899aabbccddeeff:9c6af8b28e20a10688ba86ec65e9882'' \<rparr>] \<rparr>"

definition demoLoneSurrogateKey :: jsstring where
  "demoLoneSurrogateKey = utf16 ''sk-0123456789abcdefg'' @ [0xD83D]"

definition demoEmojiKey :: jsstring where
  "demoEmojiKey = utf16 ''sk-0123456789abcdefg'' @ [0xD83D, 0xDE00]"

section \<open>Properties of the string helpers\<close>

lemma js_split_nonempty: "js_split sep s \<noteq> []"
  by (induction s) (auto split: list.splits)

lemma js_split_no_sep: "sep \<notin> set s \<Longrightarrow> js_split sep s = [s]"
  by (induction s) auto

lemma js_split_append:
  "sep \<notin> set a \<Longrightarrow> js_split sep (a @ sep # b) = a # js_split sep b"
  by (induction a) auto

lemma js_split_length: "length (js_split sep s) = Suc (count_list s sep)"
proof (induction s)
  case Nil
  show ?case by simp
next
  case (Cons c cs)
  then show ?case
    by (cases "js_split sep cs") auto
qed

lemma hexValue_hexDigit: "n < 16 \<Longrightarrow> hexValue (hexDigit n) = Some n"
proof -
  assume "n < 16"
  then have "n \<in> set [0 ..< 16]" by simp
  then have "n \<in> {0, 1, 2, 3, 4, 5, 6, 7, 8, 9, 10, 11, 12, 13, 14, 15}"
    by (simp add: upt_rec numeral_eq_Suc)
  then show ?thesis
    by (auto simp: hexValue_def hexDigit_def)
qed

lemma hexDigit_not_colon: "n < 16 \<Longrightarrow> hexDigit n \<noteq> CHR '':''"
proof -
  assume "n < 16"
  then have "hexValue (hexDigit n) = Some n" by (rule hexValue_hexDigit)
  moreover have "hexValue (CHR '':'') = None" by (simp add: hexValue_def)
  ultimately show ?thesis by auto
qed

lemma fromHex_byteToHex: "fromHex (byteToHex b @ rest) = b # fromHex rest"
proof -
  have d: "unat b div 16 < 16"
    using unsigned_less [of b, where ?'a = nat] by (simp add: less_mult_imp_div_less)
  have m: "unat b mod 16 < 16" by simp
  have "of_nat (16 * (unat b div 16) + unat b mod 16) = b"
    by simp
  then show ?thesis
    using hexValue_hexDigit [OF d] hexValue_hexDigit [OF m]
    by (simp add: byteToHex_def)
qed

lemma fromHex_toHex: "fromHex (toHex bs) = bs"
  by (induction bs) (simp_all add: toHex_def fromHex_byteToHex)

lemma colon_notin_toHex: "CHR '':'' \<notin> set (toHex bs)"
proof -
  have "CHR '':'' \<notin> set (byteToHex b)" for b
  proof -
    have d: "unat b div 16 < 16"
      using unsigned_less [of b, where ?'a = nat] by (simp add: less_mult_imp_div_less)
    have m: "unat b mod 16 < 16" by simp
    show ?thesis
      using hexDigit_not_colon [OF d] hexDigit_not_colon [OF m]
      by (auto simp: byteToHex_def)
  qed
  then show ?thesis by (auto simp: toHex_def)
qed

section \<open>UTF-8 decodes what it encoded of a well-formed string\<close>

lemma byte_of_nat: "n < 256 \<Longrightarrow> unat (of_nat n :: byte) = n"
  by (simp add: unat_of_nat)

lemma unit_lt: "unat (c :: codeUnit) < 65536"
  using unsigned_less [of c, where ?'a = nat] by simp

lemma decode_one:
  assumes "u < 0x80"
  shows "utf8Decode (of_nat u # bs) = of_nat u # utf8Decode bs"
proof -
  have "unat (of_nat u :: byte) = u" using assms by (simp add: byte_of_nat)
  then show ?thesis using assms by simp
qed

lemma decode_two:
  assumes "0x80 \<le> u" "u < 0x800"
  shows "utf8Decode (of_nat (0xC0 + u div 64) # of_nat (0x80 + u mod 64) # bs)
         = of_nat u # utf8Decode bs"
proof -
  have d: "u div 64 < 32" "2 \<le> u div 64" using assms by simp_all
  have b0: "unat (of_nat (0xC0 + u div 64) :: byte) = 0xC0 + u div 64"
    by (rule byte_of_nat) (use d in linarith)
  have b1: "unat (of_nat (0x80 + u mod 64) :: byte) = 0x80 + u mod 64"
    by (rule byte_of_nat) simp
  have v: "u div 64 * 64 + u mod 64 = u" by simp
  show ?thesis
    using d by (simp add: b0 b1 isContinuation_def v del: of_nat_add)
qed

lemma decode_three:
  assumes "0x800 \<le> u" "u < 0x10000" "\<not> (0xD800 \<le> u \<and> u \<le> 0xDFFF)"
  shows "utf8Decode (of_nat (0xE0 + u div 4096) # of_nat (0x80 + u div 64 mod 64)
                     # of_nat (0x80 + u mod 64) # bs)
         = of_nat u # utf8Decode bs"
proof -
  have d: "u div 4096 < 16" using assms by simp
  have b0: "unat (of_nat (0xE0 + u div 4096) :: byte) = 0xE0 + u div 4096"
    by (rule byte_of_nat) (use d in linarith)
  have b1: "unat (of_nat (0x80 + u div 64 mod 64) :: byte) = 0x80 + u div 64 mod 64"
    by (rule byte_of_nat) simp
  have b2: "unat (of_nat (0x80 + u mod 64) :: byte) = 0x80 + u mod 64"
    by (rule byte_of_nat) simp
  define q where "q = u div 64"
  have q2: "u div 4096 = q div 64"
    using div_mult2_eq [of u 64 64] by (simp add: q_def)
  have s1: "u = q * 64 + u mod 64" by (simp add: q_def)
  have s2: "q = q div 64 * 64 + q mod 64" by simp
  have lo: "u div 4096 = 0 \<Longrightarrow> 32 \<le> u div 64 mod 64"
    unfolding q2 q_def [symmetric] using s1 s2 assms(1) by linarith
  have m: "u mod 64 < 64" by simp
  have hi: "u div 4096 = 13 \<Longrightarrow> u div 64 mod 64 < 32"
    unfolding q2 q_def [symmetric] using s1 s2 assms m by linarith
  have v: "u div 4096 * 4096 + u div 64 mod 64 * 64 + u mod 64 = u"
    unfolding q2 q_def [symmetric] using s1 s2 by linarith
  show ?thesis
    using d lo hi by (auto simp add: b0 b1 b2 isContinuation_def v simp del: of_nat_add)
qed

lemma decode_four:
  assumes "0x10000 \<le> cp" "cp < 0x110000"
  shows "utf8Decode (of_nat (0xF0 + cp div 262144) # of_nat (0x80 + cp div 4096 mod 64)
                     # of_nat (0x80 + cp div 64 mod 64) # of_nat (0x80 + cp mod 64) # bs)
         = of_nat (0xD800 + (cp - 0x10000) div 1024)
           # of_nat (0xDC00 + (cp - 0x10000) mod 1024) # utf8Decode bs"
proof -
  have d: "cp div 262144 < 5" using assms by simp
  have b0: "unat (of_nat (0xF0 + cp div 262144) :: byte) = 0xF0 + cp div 262144"
    by (rule byte_of_nat) (use d in linarith)
  have b1: "unat (of_nat (0x80 + cp div 4096 mod 64) :: byte) = 0x80 + cp div 4096 mod 64"
    by (rule byte_of_nat) simp
  have b2: "unat (of_nat (0x80 + cp div 64 mod 64) :: byte) = 0x80 + cp div 64 mod 64"
    by (rule byte_of_nat) simp
  have b3: "unat (of_nat (0x80 + cp mod 64) :: byte) = 0x80 + cp mod 64"
    by (rule byte_of_nat) simp
  define q where "q = cp div 64"
  define p where "p = q div 64"
  have q2: "cp div 4096 = p"
    using div_mult2_eq [of cp 64 64] by (simp add: q_def p_def)
  have q3: "cp div 262144 = p div 64"
    using div_mult2_eq [of cp 4096 64] by (simp add: q2)
  have s1: "cp = q * 64 + cp mod 64" by (simp add: q_def)
  have s2: "q = p * 64 + q mod 64" by (simp add: p_def)
  have s3: "p = p div 64 * 64 + p mod 64" by simp
  have m: "cp mod 64 < 64" "q mod 64 < 64" by simp_all
  have lo: "cp div 262144 = 0 \<Longrightarrow> 16 \<le> cp div 4096 mod 64"
    unfolding q3 q2 using s1 s2 s3 m assms(1) by linarith
  have hi: "cp div 262144 = 4 \<Longrightarrow> cp div 4096 mod 64 < 16"
    unfolding q3 q2 using s1 s2 s3 m assms(2) by linarith
  have v: "cp div 262144 * 262144 + cp div 4096 mod 64 * 4096 + cp div 64 mod 64 * 64 + cp mod 64 = cp"
    unfolding q3 q2 q_def [symmetric] using s1 s2 s3 by linarith
  have "cp div 4096 mod 64 < 64" by (rule mod_less_divisor) simp
  then have m3: "cp div 4096 mod 64 \<le> 63" by linarith
  show ?thesis
    using d lo hi m3 by (auto simp add: b0 b1 b2 b3 isContinuation_def v Let_def simp del: of_nat_add)
qed

lemma pair_value:
  assumes "0xD800 \<le> u" "u \<le> 0xDBFF" "0xDC00 \<le> v" "v \<le> (0xDFFF :: nat)"
  shows "0x10000 \<le> 0x10000 + (u - 0xD800) * 1024 + (v - 0xDC00)"
        "0x10000 + (u - 0xD800) * 1024 + (v - 0xDC00) < 0x110000"
        "0xD800 + (0x10000 + (u - 0xD800) * 1024 + (v - 0xDC00) - 0x10000) div 1024 = u"
        "0xDC00 + (0x10000 + (u - 0xD800) * 1024 + (v - 0xDC00) - 0x10000) mod 1024 = v"
proof -
  define a where "a = u - 0xD800"
  define b where "b = v - 0xDC00"
  have u: "u = 0xD800 + a" and v: "v = 0xDC00 + b" and a: "a < 1024" and b: "b < 1024"
    using assms by (simp_all add: a_def b_def)
  show "0x10000 \<le> 0x10000 + (u - 0xD800) * 1024 + (v - 0xDC00)" by simp
  show "0x10000 + (u - 0xD800) * 1024 + (v - 0xDC00) < 0x110000" using a b by (simp add: u v)
  show "0xD800 + (0x10000 + (u - 0xD800) * 1024 + (v - 0xDC00) - 0x10000) div 1024 = u"
    using b by (simp add: u v)
  show "0xDC00 + (0x10000 + (u - 0xD800) * 1024 + (v - 0xDC00) - 0x10000) mod 1024 = v"
    using b by (simp add: u v)
qed

lemma utf8_roundtrip: "isWellFormed x \<Longrightarrow> utf8Decode (utf8Encode x) = x"
proof (induction x rule: isWellFormed.induct)
  case 1
  show ?case by simp
next
  case (2 c cs)
  define u where "u = unat c"
  have c: "of_nat u = c" by (simp add: u_def)
  have ul: "u < 65536" unfolding u_def by (rule unit_lt)
  show ?case
  proof (cases "isHighSurrogate c")
    case True
    with "2.prems" obtain d ds where cs: "cs = d # ds" and low: "isLowSurrogate d"
      and wf: "isWellFormed ds"
      by (cases cs) auto
    from "2.IH"(1) [OF True cs] wf have ih: "utf8Decode (utf8Encode ds) = ds" by simp
    define v where "v = unat d"
    have dd: "of_nat v = d" by (simp add: v_def)
    from True low have r: "0xD800 \<le> u" "u \<le> 0xDBFF" "0xDC00 \<le> v" "v \<le> 0xDFFF"
      by (simp_all add: isHighSurrogate_def isLowSurrogate_def u_def v_def)
    define cp where "cp = 0x10000 + (u - 0xD800) * 1024 + (v - 0xDC00)"
    note p = pair_value [OF r, folded cp_def]
    have u8: "\<not> u < 0x80" "\<not> u < 0x800" using r by simp_all
    have e: "utf8Encode (c # d # ds)
          = of_nat (0xF0 + cp div 262144) # of_nat (0x80 + cp div 4096 mod 64)
                # of_nat (0x80 + cp div 64 mod 64) # of_nat (0x80 + cp mod 64) # utf8Encode ds"
      unfolding utf8Encode.simps(2) [of c "d # ds"] Let_def u_def [symmetric]
      using True low u8 by (simp add: cp_def v_def del: utf8Encode.simps of_nat_add)
    show ?thesis
      unfolding cs e decode_four [OF p(1,2)] p(3,4) c dd ih by (rule refl)
  next
    case False
    with "2.prems" have nl: "\<not> isLowSurrogate c" and wf: "isWellFormed cs" by simp_all
    from "2.IH"(2) [OF False] wf have ih: "utf8Decode (utf8Encode cs) = cs" by simp
    from False nl have ns: "\<not> (0xD800 \<le> u \<and> u \<le> 0xDFFF)"
      by (auto simp: isHighSurrogate_def isLowSurrogate_def u_def)
    consider "u < 0x80" | "0x80 \<le> u" "u < 0x800" | "0x800 \<le> u" by linarith
    then show ?thesis
    proof cases
      case 1
      then have e: "utf8Encode (c # cs) = of_nat u # utf8Encode cs"
        by (simp add: u_def [symmetric] Let_def)
      show ?thesis unfolding e decode_one [OF 1] c ih by (rule refl)
    next
      case 2
      then have e: "utf8Encode (c # cs)
                 = of_nat (0xC0 + u div 64) # of_nat (0x80 + u mod 64) # utf8Encode cs"
        by (simp add: u_def [symmetric] Let_def del: of_nat_add)
      show ?thesis unfolding e decode_two [OF 2] c ih by (rule refl)
    next
      case 3
      then have e: "utf8Encode (c # cs)
                 = of_nat (0xE0 + u div 4096) # of_nat (0x80 + u div 64 mod 64)
                   # of_nat (0x80 + u mod 64) # utf8Encode cs"
        using False nl by (simp add: u_def [symmetric] Let_def del: of_nat_add)
      show ?thesis unfolding e decode_three [OF 3 ul ns] c ih by (rule refl)
    qed
  qed
qed

section \<open>The credential vault\<close>

lemma split_encrypted:
  "js_split (CHR '':'') (toHex a @ '':'' @ toHex b) = [toHex a, toHex b]"
  using js_split_append [of "CHR '':''" "toHex a" "toHex b"]
        js_split_no_sep [of "CHR '':''" "toHex b"]
  by (simp add: colon_notin_toHex)

lemma demoCipher_sound: "cipherSound demoCipher key"
proof -
  have "\<exists>ct. cipherEncrypt demoCipher key iv plain = Some ct
             \<and> cipherDecrypt demoCipher key iv ct = Some plain"
    if iv: "length iv = 16" for iv plain
  proof (cases "key = demoKey \<and> iv = demoIv")
    case False
    then show ?thesis using iv by (auto simp: demoCipher_def)
  next
    case True
    show ?thesis
    proof (cases "map_of aesSamples plain")
      case None
      have "demoIv @ plain \<notin> snd ` set aesSamples"
        by (simp add: aesSamples_def demoIv_def)
      with None True iv show ?thesis by (simp add: demoCipher_def)
    next
      case (Some ct)
      then have "(plain, ct) \<in> set aesSamples" by (rule map_of_SomeD)
      then have "ct \<in> snd ` set aesSamples
                 \<and> map_of (map (\<lambda>(plain, ct). (ct, plain)) aesSamples) ct = Some plain"
        by (auto simp: aesSamples_def)
      with Some True show ?thesis by (simp add: demoCipher_def)
    qed
  qed
  then show ?thesis by (simp add: cipherSound_def)
qed

lemma length_toHex: "length (toHex bs) = 2 * length bs"
  by (induction bs) (simp_all add: toHex_def byteToHex_def)

lemma hexInput_toHex: "hexInput (toHex bs) = Some bs"
  by (simp add: hexInput_def length_toHex fromHex_toHex)

lemma split_two_fields:
  "js_split (CHR '':'') s = [a, b] \<Longrightarrow> length (js_split (CHR '':'') s) = 2"
  by simp

lemma decrypt_two_fields:
  assumes "js_split (CHR '':'') s = [ivField, dataField]"
  shows "decryptApiKey C key s
         = (case hexInput dataField of
              None \<Rightarrow> Inl DecryptionError
            | Some data \<Rightarrow>
                (case cipherDecrypt C key (fromHex ivField) data of
                   None \<Rightarrow> Inl DecryptionError
                 | Some decrypted \<Rightarrow> Inr (utf8Decode decrypted)))"
  by (simp add: decryptApiKey_def assms Let_def)

lemma vault_returns_decoded:
  assumes sound: "cipherSound C key" and iv: "length iv = 16"
  shows "\<exists>c. encryptApiKey C key iv x = Inr c
             \<and> decryptApiKey C key c = Inr (utf8Decode (utf8Encode x))"
proof -
  from sound iv obtain ct where
    e: "cipherEncrypt C key iv (utf8Encode x) = Some ct"
    and d: "cipherDecrypt C key iv ct = Some (utf8Encode x)"
    unfolding cipherSound_def by blast
  have "encryptApiKey C key iv x = Inr (toHex iv @ '':'' @ toHex ct)"
    by (simp add: encryptApiKey_def e)
  moreover have "decryptApiKey C key (toHex iv @ '':'' @ toHex ct)
                 = Inr (utf8Decode (utf8Encode x))"
    unfolding decrypt_two_fields [OF split_encrypted]
    by (simp add: hexInput_toHex fromHex_toHex d)
  ultimately show ?thesis by blast
qed

lemmas vault_eval =
  utf16_def encryptApiKey_def decryptApiKey_def demoCipher_def demoIv_def demoKey_def aesSamples_def
  toHex_def byteToHex_def hexDigit_def hexValue_def hexInput_def
  isHighSurrogate_def isLowSurrogate_def replacementBytes_def isContinuation_def Let_def

text \<open>
  Claim C7 as the specification states it: for every string \<open>x\<close>, decrypting the
  encryption of \<open>x\<close> returns \<open>x\<close>. It fails on a string with a lone surrogate: the key
  below passes the format check of the profile update, its last code unit U+D83D is
  encoded as the bytes of U+FFFD, and decryption returns the key with U+FFFD in its
  place. The loss is in the encoding, before the cipher; the ciphertext shown is that of
  AES-256-CBC under \<open>demoKey\<close> and \<open>demoIv\<close>.
\<close>

theorem vault_lone_surrogate_counterexample:
  "validateOpenAIApiKey demoLoneSurrogateKey
   \<and> demoLoneSurrogateKey = utf16 ''sk-0123456789abcdefg'' @ [0xD83D]
   \<and> encryptApiKey demoCipher demoKey demoIv demoLoneSurrogateKey
       = Inr ''00112233445566778899aabbccddeeff:414dd62e087e9596bf03a37e37384e056ba42e124bfe388bcfc1eb8be922b555''
   \<and> decryptApiKey demoCipher demoKey ''00112233445566778899aabbccddeeff:414dd62e087e9596bf03a37e37384e056ba42e124bfe388bcfc1eb8be922b555''
       = Inr (utf16 ''sk-0123456789abcdefg'' @ [0xFFFD])
   \<and> utf8Decode (utf8Encode demoLoneSurrogateKey) = utf16 ''sk-0123456789abcdefg'' @ [0xFFFD]"
  by (simp add: vault_eval validateOpenAIApiKey_def startsWith_def demoLoneSurrogateKey_def)

text \<open>
  Claim C7, amended. Under the process-wide key, for every well-formed string \<open>x\<close> (no
  lone surrogate) and every initialization vector of sixteen bytes that the call may draw,
  \<open>encryptApiKey\<close> returns a value and \<open>decryptApiKey\<close> of that value returns \<open>x\<close>.
  The cipher is the platform's; the property is proved for every cipher that, under the
  key, decrypts the bytes it encrypted.
\<close>

theorem vault_roundtrip:
  assumes sound: "cipherSound C key" and iv: "length iv = 16" and wf: "isWellFormed x"
  shows "\<exists>c. encryptApiKey C key iv x = Inr c \<and> decryptApiKey C key c = Inr x"
  using vault_returns_decoded [OF sound iv, of x] utf8_roundtrip [OF wf] by simp

theorem vault_roundtrip_witness:
  "cipherSound demoCipher demoKey \<and> length demoIv = 16 \<and> isWellFormed demoEmojiKey
   \<and> demoEmojiKey = utf16 ''sk-0123456789abcdefg'' @ [0xD83D, 0xDE00]
   \<and> (\<exists>c. encryptApiKey demoCipher demoKey demoIv demoEmojiKey = Inr c
          \<and> decryptApiKey demoCipher demoKey c = Inr demoEmojiKey)"
proof -
  have s: "cipherSound demoCipher demoKey" by (rule demoCipher_sound)
  have l: "length demoIv = 16" by (simp add: demoIv_def)
  have w: "isWellFormed demoEmojiKey" by (simp add: demoEmojiKey_def vault_eval)
  have d: "demoEmojiKey = utf16 ''sk-0123456789abcdefg'' @ [0xD83D, 0xDE00]"
    by (simp add: demoEmojiKey_def)
  from s l w d vault_roundtrip [OF s l w] show ?thesis by (intro conjI)
qed

text \<open>
  Claim C8 as the specification states it: an input that is not hex(iv), one separator,
  hex(ciphertext) never returns a value. It fails: the decoder of the vector field stops
  at the first pair that is not two hex digits and keeps what it has read, so the input
  below, whose first field ends in \<open>zz\<close>, decrypts to the key that the well-formed
  ciphertext (that of AES-256-CBC under \<open>demoKey\<close> and \<open>demoIv\<close>) holds.
\<close>

theorem decrypt_lenient_counterexample:
  "encryptApiKey demoCipher demoKey demoIv (utf16 ''sk-abc'')
     = Inr ''00112233445566778899aabbccddeeff:9c6af8b28e20a10688ba86ec65e98827''
   \<and> decryptApiKey demoCipher demoKey ''00112233445566778899aabbccddeeffzz:9c6af8b28e20a10688ba86ec65e98827''
     = Inr (utf16 ''sk-abc'')"
  by (simp add: vault_eval)

text \<open>
  Claim C8, amended. An input with no separator or with more than one fails with the
  decryption error. An input of two fields fails with it when the data field has an odd
  number of characters, and when the cipher rejects the bytes decoded from the fields
  (each field read as hex up to the first pair that is not two hex digits). An input of
  two fields whose data field has an even number of characters decrypts exactly as the
  well-formed string \<open>hex(iv):hex(data)\<close> of the bytes decoded from its fields: what
  follows the hex digits of a field does not make it fail.
\<close>

theorem decrypt_malformed_fails:
  "(count_list s (CHR '':'') \<noteq> 1 \<longrightarrow> decryptApiKey C key s = Inl DecryptionError)
   \<and> (js_split (CHR '':'') s = [ivField, dataField] \<longrightarrow>
        (odd (length dataField) \<longrightarrow> decryptApiKey C key s = Inl DecryptionError)
      \<and> (cipherDecrypt C key (fromHex ivField) (fromHex dataField) = None \<longrightarrow>
           decryptApiKey C key s = Inl DecryptionError)
      \<and> (even (length dataField) \<longrightarrow>
           decryptApiKey C key s
           = decryptApiKey C key (toHex (fromHex ivField) @ '':'' @ toHex (fromHex dataField))))"
proof (intro conjI impI)
  assume "count_list s (CHR '':'') \<noteq> 1"
  then show "decryptApiKey C key s = Inl DecryptionError"
    by (simp add: decryptApiKey_def js_split_length Let_def)
next
  assume f: "js_split (CHR '':'') s = [ivField, dataField]" and "odd (length dataField)"
  then show "decryptApiKey C key s = Inl DecryptionError"
    by (simp add: decrypt_two_fields [OF f] hexInput_def)
next
  assume f: "js_split (CHR '':'') s = [ivField, dataField]"
    and "cipherDecrypt C key (fromHex ivField) (fromHex dataField) = None"
  then show "decryptApiKey C key s = Inl DecryptionError"
    by (simp add: decrypt_two_fields [OF f] hexInput_def)
next
  assume f: "js_split (CHR '':'') s = [ivField, dataField]" and e: "even (length dataField)"
  have "decryptApiKey C key (toHex (fromHex ivField) @ '':'' @ toHex (fromHex dataField))
        = (case cipherDecrypt C key (fromHex ivField) (fromHex dataField) of
             None \<Rightarrow> Inl DecryptionError
           | Some decrypted \<Rightarrow> Inr (utf8Decode decrypted))"
    unfolding decrypt_two_fields [OF split_encrypted]
    by (simp add: hexInput_toHex fromHex_toHex)
  moreover have "decryptApiKey C key s
        = (case cipherDecrypt C key (fromHex ivField) (fromHex dataField) of
             None \<Rightarrow> Inl DecryptionError
           | Some decrypted \<Rightarrow> Inr (utf8Decode decrypted))"
    using e by (simp add: decrypt_two_fields [OF f] hexInput_def)
  ultimately show "decryptApiKey C key s
           = decryptApiKey C key (toHex (fromHex ivField) @ '':'' @ toHex (fromHex dataField))"
    by simp
qed

theorem decrypt_malformed_fails_witness:
  "decryptApiKey demoCipher demoKey ''00112233445566778899aabbccddeeff'' = Inl DecryptionError
   \<and> decryptApiKey demoCipher demoKey ''0011:2233:4455'' = Inl DecryptionError
   \<and> decryptApiKey demoCipher demoKey ''00112233445566778899aabbccddeeff:9c6af8b28e20a10688ba86ec65e9882'' = Inl DecryptionError
   \<and> decryptApiKey demoCipher demoKey ''0011:2233'' = Inl DecryptionError
   \<and> decryptApiKey demoCipher demoKey ''00112233445566778899aabbccddeeffzz:9c6af8b28e20a10688ba86ec65e98827'' = decryptApiKey demoCipher demoKey ''00112233445566778899aabbccddeeff:9c6af8b28e20a10688ba86ec65e98827''"
proof -
  note t = decrypt_malformed_fails [where C = demoCipher and key = demoKey]
  have a: "count_list ''00112233445566778899aabbccddeeff'' (CHR '':'') \<noteq> 1" by simp
  have b: "count_list ''0011:2233:4455'' (CHR '':'') \<noteq> 1" by simp
  have c: "js_split (CHR '':'') ''00112233445566778899aabbccddeeff:9c6af8b28e20a10688ba86ec65e9882''
           = [''00112233445566778899aabbccddeeff'', ''9c6af8b28e20a10688ba86ec65e9882'']"
          "odd (length ''9c6af8b28e20a10688ba86ec65e9882'')"
    by simp_all
  have d: "js_split (CHR '':'') ''0011:2233'' = [''0011'', ''2233'']"
          "cipherDecrypt demoCipher demoKey (fromHex ''0011'') (fromHex ''2233'') = None"
    by (simp_all add: vault_eval)
  have e: "js_split (CHR '':'') ''00112233445566778899aabbccddeeffzz:9c6af8b28e20a10688ba86ec65e98827''
           = [''00112233445566778899aabbccddeeffzz'', ''9c6af8b28e20a10688ba86ec65e98827'']"
          "even (length ''9c6af8b28e20a10688ba86ec65e98827'')"
    by simp_all
  have h: "toHex (fromHex ''00112233445566778899aabbccddeeffzz'') @ '':''
             @ toHex (fromHex ''9c6af8b28e20a10688ba86ec65e98827'') = ''00112233445566778899aabbccddeeff:9c6af8b28e20a10688ba86ec65e98827''"
    by (simp add: vault_eval)
  from t [of "''00112233445566778899aabbccddeeff''"] a
  have 1: "decryptApiKey demoCipher demoKey ''00112233445566778899aabbccddeeff'' = Inl DecryptionError"
    by blast
  from t [of "''0011:2233:4455''"] b
  have 2: "decryptApiKey demoCipher demoKey ''0011:2233:4455'' = Inl DecryptionError"
    by blast
  from t [of "''00112233445566778899aabbccddeeff:9c6af8b28e20a10688ba86ec65e9882''" "''00112233445566778899aabbccddeeff''" "''9c6af8b28e20a10688ba86ec65e9882''"] c
  have 3: "decryptApiKey demoCipher demoKey ''00112233445566778899aabbccddeeff:9c6af8b28e20a10688ba86ec65e9882'' = Inl DecryptionError"
    by blast
  from t [of "''0011:2233''" "''0011''" "''2233''"] d
  have 4: "decryptApiKey demoCipher demoKey ''0011:2233'' = Inl DecryptionError"
    by blast
  from t [of "''00112233445566778899aabbccddeeffzz:9c6af8b28e20a10688ba86ec65e98827''" "''00112233445566778899aabbccddeeffzz''" "''9c6af8b28e20a10688ba86ec65e98827''"] e
  have "decryptApiKey demoCipher demoKey ''00112233445566778899aabbccddeeffzz:9c6af8b28e20a10688ba86ec65e98827''
        = decryptApiKey demoCipher demoKey
            (toHex (fromHex ''00112233445566778899aabbccddeeffzz'') @ '':''
             @ toHex (fromHex ''9c6af8b28e20a10688ba86ec65e98827''))"
    by blast
  then have 5: "decryptApiKey demoCipher demoKey ''00112233445566778899aabbccddeeffzz:9c6af8b28e20a10688ba86ec65e98827'' = decryptApiKey demoCipher demoKey ''00112233445566778899aabbccddeeff:9c6af8b28e20a10688ba86ec65e98827''"
    unfolding h .
  from 1 2 3 4 5 show ?thesis by (intro conjI)
qed

section \<open>The conversation list of the client\<close>

text \<open>
  Claim C10. After a reload that the server answers, the list of the client is the
  provisional conversations (id with the prefix \<open>conv_\<close>) of the previous list whose id
  the server does not return, in their order, followed by the server's list: every such
  provisional conversation is kept at a position before the server's entries, the
  server's entries follow in the server's order, and every entry whose id the server
  returns is the server's.
\<close>

theorem reload_merges_provisional:
  "\<exists>localOnly.
     st_conversations (fst (fetchConversations st (FetchOk server))) = localOnly @ server
     \<and> localOnly = filter (\<lambda>c. startsWith (cc_id c) ''conv_'' \<and> cc_id c \<notin> cc_id ` set server)
                      (st_conversations st)
     \<and> (\<forall>c \<in> set (st_conversations st).
           startsWith (cc_id c) ''conv_'' \<and> cc_id c \<notin> cc_id ` set server \<longrightarrow>
           (\<exists>i < length localOnly.
              st_conversations (fst (fetchConversations st (FetchOk server))) ! i = c))
     \<and> (\<forall>j < length server.
           st_conversations (fst (fetchConversations st (FetchOk server))) ! (length localOnly + j)
           = server ! j)
     \<and> (\<forall>e \<in> set (st_conversations (fst (fetchConversations st (FetchOk server)))).
           cc_id e \<in> cc_id ` set server \<longrightarrow> e \<in> set server)"
proof -
  let ?P = "\<lambda>c. startsWith (cc_id c) ''conv_'' \<and> cc_id c \<notin> cc_id ` set server"
  let ?merged = "st_conversations (fst (fetchConversations st (FetchOk server)))"
  define localOnly where "localOnly = filter ?P (st_conversations st)"
  have "filter (\<lambda>c. cc_id c \<notin> set (map cc_id server) \<and> startsWith (cc_id c) ''conv_'')
          (st_conversations st) = localOnly"
    unfolding localOnly_def by (rule filter_cong) auto
  then have merged: "?merged = localOnly @ server"
    by (simp add: fetchConversations_def mergeConversations_def Let_def)
  have kept: "\<forall>c \<in> set (st_conversations st). ?P c \<longrightarrow> (\<exists>i < length localOnly. ?merged ! i = c)"
  proof (intro ballI impI)
    fix c assume "c \<in> set (st_conversations st)" and "?P c"
    then have "c \<in> set localOnly" by (simp add: localOnly_def)
    then obtain i where "i < length localOnly" "localOnly ! i = c"
      by (auto simp: in_set_conv_nth)
    then have "i < length localOnly \<and> ?merged ! i = c"
      unfolding merged by (simp add: nth_append)
    then show "\<exists>i < length localOnly. ?merged ! i = c" by blast
  qed
  have after: "\<forall>j < length server. ?merged ! (length localOnly + j) = server ! j"
    unfolding merged by simp
  have authoritative: "\<forall>e \<in> set ?merged. cc_id e \<in> cc_id ` set server \<longrightarrow> e \<in> set server"
    unfolding merged by (auto simp: localOnly_def)
  from merged kept after authoritative show ?thesis
    unfolding localOnly_def by blast
qed

theorem reload_merges_provisional_witness:
  "demoLocal \<in> set (st_conversations demoChatState)
   \<and> startsWith (cc_id demoLocal) ''conv_'' \<and> cc_id demoLocal \<notin> cc_id ` set demoServerList
   \<and> demoStale \<in> set (st_conversations demoChatState)
   \<and> cc_id demoStale \<in> cc_id ` set demoServerList
   \<and> st_conversations (fst (fetchConversations demoChatState (FetchOk demoServerList)))
       = demoLocal # demoServerList"
proof -
  have a: "demoLocal \<in> set (st_conversations demoChatState)"
          "demoStale \<in> set (st_conversations demoChatState)"
    by (simp_all add: demoChatState_def)
  have b: "startsWith (cc_id demoLocal) ''conv_''" by code_simp
  have c: "cc_id demoLocal \<notin> cc_id ` set demoServerList" by code_simp
  have d: "cc_id demoStale \<in> cc_id ` set demoServerList" by code_simp
  have f: "filter (\<lambda>c. startsWith (cc_id c) ''conv_'' \<and> cc_id c \<notin> cc_id ` set demoServerList)
             (st_conversations demoChatState) = [demoLocal]"
    by code_simp
  from reload_merges_provisional [of demoChatState demoServerList]
  obtain localOnly where
    "st_conversations (fst (fetchConversations demoChatState (FetchOk demoServerList)))
       = localOnly @ demoServerList"
    and "localOnly = filter (\<lambda>c. startsWith (cc_id c) ''conv_'' \<and> cc_id c \<notin> cc_id ` set demoServerList)
                      (st_conversations demoChatState)"
    by blast
  with f have "st_conversations (fst (fetchConversations demoChatState (FetchOk demoServerList)))
       = demoLocal # demoServerList"
    by simp
  with a b c d show ?thesis by (intro conjI)
qed

section \<open>The profile update\<close>

text \<open>
  Claim C9 as the specification states it: on an update, a field that the call omits
  keeps its stored value. It fails: the stored health goal \<open>Lose weight\<close> is replaced
  by \<open>null\<close> when the request omits \<open>healthGoal\<close>.
\<close>

theorem profile_omitted_field_counterexample:
  "map_option healthGoal (profiles demoStore ''u1'') = Some (Some ''Lose weight'')
   \<and> body_healthGoal demoProfileRequest = None
   \<and> map_option healthGoal (profiles (snd (PUT demoEnv demoStore demoProfileRequest)) ''u1'') = Some None"
  by (simp add: PUT_def demoProfileRequest_def demoEnv_def demoStore_def demoProfile_def
      getAuthenticatedUser_def upsertProfile_def orNull_def Let_def)

text \<open>
  Claim C9, amended. A call that omits \<open>dietaryPreferences\<close> is rejected with status
  400 and writes nothing. A call of an authenticated user that gives the array, and either
  no API key or one that passes the format check and encrypts, succeeds, and the stored
  profile has: the health goal and the fitness level of the call, \<open>null\<close> when the call
  omits them or gives the empty string (whatever was stored before); the array of the
  call; and, when the call carries no API key, the ciphertext and the flag that were
  stored, or no ciphertext and a false flag when the profile is created.
\<close>

theorem profile_upsert_fields:
  "(body_dietaryPreferences body = None \<longrightarrow>
      PUT E db body = (ProfileError 400 ''dietaryPreferences must be an array'', db))
   \<and> (getAuthenticatedUser E db = Some uid \<and> body_dietaryPreferences body = Some prefs
       \<and> (apiKeyOmitted body
           \<or> validateOpenAIApiKey (orEmpty (body_apiKey body))
             \<and> cipherEncrypt (vaultCipher E) (ENCRYPTION_KEY E) (randomBytes16 E)
                  (utf8Encode (orEmpty (body_apiKey body))) \<noteq> None) \<longrightarrow>
      (\<exists>out p. PUT E db body
                  = (ProfileJson200 out, db\<lparr> profiles := (profiles db)(uid \<mapsto> p), clock := Suc (clock db) \<rparr>)
         \<and> healthGoal p = orNull (body_healthGoal body)
         \<and> fitnessLevel p = orNull (body_fitnessLevel body)
         \<and> dietaryPreferences p = prefs
         \<and> (apiKeyOmitted body \<longrightarrow>
              (case profiles db uid of
                 None \<Rightarrow> openaiApiKeyHash p = None \<and> \<not> hasApiKey p
               | Some old \<Rightarrow> openaiApiKeyHash p = openaiApiKeyHash old
                             \<and> hasApiKey p = hasApiKey old))))"
  by (auto simp: PUT_def upsertProfile_def Let_def apiKeyOmitted_def encryptApiKey_def orEmpty_def
           split: option.splits if_splits sum.splits prod.splits)

theorem profile_upsert_fields_witness:
  "getAuthenticatedUser demoEnv demoStore = Some ''u1''
   \<and> body_dietaryPreferences demoProfileRequest = Some [''vegan'', ''gluten-free'']
   \<and> apiKeyOmitted demoProfileRequest
   \<and> (\<exists>out p. PUT demoEnv demoStore demoProfileRequest
                  = (ProfileJson200 out,
                     demoStore\<lparr> profiles := (profiles demoStore)(''u1'' \<mapsto> p), clock := Suc (clock demoStore) \<rparr>)
         \<and> healthGoal p = None
         \<and> fitnessLevel p = Some ''Advanced''
         \<and> dietaryPreferences p = [''vegan'', ''gluten-free'']
         \<and> openaiApiKeyHash p = openaiApiKeyHash demoProfile
         \<and> hasApiKey p = hasApiKey demoProfile)"
proof -
  have a: "getAuthenticatedUser demoEnv demoStore = Some ''u1''"
    by (simp add: getAuthenticatedUser_def demoEnv_def demoStore_def)
  have b: "body_dietaryPreferences demoProfileRequest = Some [''vegan'', ''gluten-free'']"
    by (simp add: demoProfileRequest_def)
  have c: "apiKeyOmitted demoProfileRequest"
    by (simp add: apiKeyOmitted_def demoProfileRequest_def)
  have d: "profiles demoStore ''u1'' = Some demoProfile"
    by (simp add: demoStore_def)
  have e: "orNull (body_healthGoal demoProfileRequest) = None"
          "orNull (body_fitnessLevel demoProfileRequest) = Some ''Advanced''"
    by (simp_all add: demoProfileRequest_def orNull_def)
  show ?thesis
    using profile_upsert_fields [of demoProfileRequest demoEnv demoStore "''u1''" "[''vegan'', ''gluten-free'']"]
          a b c d e
    by auto
qed

section \<open>Fields, trimming and the title\<close>

lemma js_join_Cons:
  "js_join sep (w # ws) = (if ws = [] then w else w @ sep @ js_join sep ws)"
  by (cases ws) simp_all

lemma take_split_nonempty: "take (Suc n) (js_split c s) \<noteq> []"
  using js_split_nonempty [of c s] by (cases "js_split c s") simp_all

lemma first_fields_Cons_other:
  assumes "x \<noteq> c"
  shows "js_join [c] (take (Suc n) (js_split c (x # xs)))
         = x # js_join [c] (take (Suc n) (js_split c xs))"
proof (cases "js_split c xs")
  case Nil
  then show ?thesis using js_split_nonempty [of c xs] by simp
next
  case (Cons w ws)
  then show ?thesis using assms by (simp add: js_join_Cons)
qed

lemma first_fields_Cons_sep:
  "js_join [c] (take (Suc (Suc n)) (js_split c (c # xs)))
   = c # js_join [c] (take (Suc n) (js_split c xs))"
  using take_split_nonempty [of n c xs] by (simp add: js_join_Cons)

lemma first_fields_few:
  "count_list s c \<le> n \<Longrightarrow> js_join [c] (take (Suc n) (js_split c s)) = s"
proof (induction s arbitrary: n)
  case Nil
  show ?case by simp
next
  case (Cons x xs)
  show ?case
  proof (cases "x = c")
    case True
    with Cons.prems obtain m where n: "n = Suc m" and m: "count_list xs c \<le> m"
      by (cases n) auto
    show ?thesis
      unfolding n True first_fields_Cons_sep using Cons.IH [OF m] by (simp del: js_split.simps)
  next
    case False
    with Cons.prems have "count_list xs c \<le> n" by simp
    from Cons.IH [OF this] show ?thesis
      by (simp add: first_fields_Cons_other [OF False] del: js_split.simps)
  qed
qed

lemma first_fields_many:
  "n < count_list s c \<Longrightarrow>
   \<exists>rest. s = js_join [c] (take (Suc n) (js_split c s)) @ c # rest
          \<and> count_list (js_join [c] (take (Suc n) (js_split c s))) c = n"
proof (induction s arbitrary: n)
  case Nil
  then show ?case by simp
next
  case (Cons x xs)
  show ?case
  proof (cases "x = c")
    case True
    show ?thesis
    proof (cases n)
      case 0
      then show ?thesis using True by simp
    next
      case (Suc m)
      with Cons.prems True have "m < count_list xs c" by simp
      from Cons.IH [OF this] show ?thesis
        unfolding Suc True first_fields_Cons_sep by (auto simp del: js_split.simps)
    qed
  next
    case False
    with Cons.prems have "n < count_list xs c" by simp
    from Cons.IH [OF this] show ?thesis
      using False by (auto simp: first_fields_Cons_other [OF False] simp del: js_split.simps)
  qed
qed

lemma trim_Nil_or_hd: "trim s = [] \<or> \<not> isWhiteSpace (hd (trim s))"
proof (cases "trim s = []")
  case True
  then show ?thesis by simp
next
  case False
  define u where "u = dropWhile isWhiteSpace s"
  define v where "v = dropWhile isWhiteSpace (rev u)"
  have t: "trim s = rev v" by (simp add: trim_def trimStart_def trimEnd_def u_def v_def)
  have "rev u = takeWhile isWhiteSpace (rev u) @ v" by (simp add: v_def)
  then have "rev (rev u) = rev (takeWhile isWhiteSpace (rev u) @ v)" by simp
  then have u: "u = rev v @ rev (takeWhile isWhiteSpace (rev u))" by simp
  from False t have nv: "rev v \<noteq> []" by simp
  then have "hd u = hd (rev v)" using u by (metis hd_append2)
  moreover have "u \<noteq> []" using u nv by auto
  then have "\<not> isWhiteSpace (hd u)" unfolding u_def by (rule hd_dropWhile)
  ultimately show ?thesis by (simp add: t)
qed

lemma trimStart_id: "\<not> isWhiteSpace x \<Longrightarrow> trimStart (x # xs) = x # xs"
  by (simp add: trimStart_def)

lemma trimEnd_nonempty: "\<not> isWhiteSpace x \<Longrightarrow> trimEnd (x # xs) \<noteq> []"
  by (auto simp: trimEnd_def dropWhile_eq_Nil_conv)

lemma trimEnd_dots: "trimEnd (a @ ''...'') = a @ ''...''"
  by (simp add: trimEnd_def isWhiteSpace_def)

lemma title_characterised:
  fixes message :: string
  defines "w \<equiv> js_join '' '' (take 4 (js_split (CHR '' '') (trim message)))"
  shows "generateConversationTitle message
         = (if trim message = [] then ''New Conversation''
            else if length w > 30 then take 30 w @ ''...'' else trimEnd w)"
    and "generateConversationTitle message \<noteq> []"
proof -
  have both: "generateConversationTitle message
         = (if trim message = [] then ''New Conversation''
            else if length w > 30 then take 30 w @ ''...'' else trimEnd w)
        \<and> generateConversationTitle message \<noteq> []"
  proof (cases "trim message")
    case Nil
    have "trim [] = []" by (simp add: trim_def trimStart_def trimEnd_def)
    then show ?thesis
      by (simp add: generateConversationTitle_def w_def Nil)
  next
    case (Cons x xs)
    with trim_Nil_or_hd [of message] have nws: "\<not> isWhiteSpace x" by simp
    then have "x \<noteq> CHR '' ''" by (auto simp: isWhiteSpace_def)
    then have w: "w = x # js_join '' '' (take 4 (js_split (CHR '' '') xs))"
      unfolding w_def Cons
      using first_fields_Cons_other [of x "CHR '' ''" 3 xs] by (simp add: numeral_eq_Suc)
    define r where "r = js_join '' '' (take 4 (js_split (CHR '' '') xs))"
    have w': "w = x # r" by (simp add: w r_def)
    have g: "generateConversationTitle message
              = (let title = (if length w > 30 then take 30 w @ ''...'' else w)
                 in if trim title = [] then ''New Conversation'' else trim title)"
      by (simp add: generateConversationTitle_def w_def substring0_def Let_def)
    show ?thesis
    proof (cases "length w > 30")
      case True
      have "take 30 w = x # take 29 r" by (simp add: w' take_Cons')
      then have "trim (take 30 w @ ''...'') = take 30 w @ ''...''"
        using trimEnd_dots [of "x # take 29 r"] nws by (simp add: trim_def trimStart_id)
      with True show ?thesis by (simp add: g Cons)
    next
      case False
      have "trim w = trimEnd w" using nws by (simp add: trim_def w' trimStart_id)
      moreover have "trimEnd w \<noteq> []" using nws by (simp add: w' trimEnd_nonempty)
      ultimately show ?thesis using False by (simp add: g Cons)
    qed
  qed
  from both show "generateConversationTitle message
         = (if trim message = [] then ''New Conversation''
            else if length w > 30 then take 30 w @ ''...'' else trimEnd w)" by (rule conjunct1)
  from both show "generateConversationTitle message \<noteq> []" by (rule conjunct2)
qed

section \<open>The steps of a turn\<close>

lemma getUserOpenAIClient_frame:
  "profiles db' = profiles db \<Longrightarrow> getUserOpenAIClient E db' uid = getUserOpenAIClient E db uid"
  by (simp add: getUserOpenAIClient_def)

lemma resolve_new:
  assumes "startsNewConversation db uid conversationId"
  shows "resolveConversation E db uid message conversationId
         = (newConversationId E,
            db\<lparr> conversations := conversations db
                   @ [\<lparr> conv_id = newConversationId E, conv_userId = uid,
                         conv_title = generateConversationTitle message,
                         conv_lastMessage = Some message,
                         conv_createdAt = clock db, conv_updatedAt = clock db \<rparr>],
                clock := Suc (clock db) \<rparr>)"
  using assms
  by (auto simp: startsNewConversation_def resolveConversation_def createConversation_def Let_def
           split: option.splits)

lemma resolve_existing:
  assumes "\<not> startsNewConversation db uid conversationId"
  shows "\<exists>cid c. conversationId = Some cid \<and> findConversation db cid uid = Some c
               \<and> resolveConversation E db uid message conversationId = (cid, db)"
  using assms
  by (auto simp: startsNewConversation_def resolveConversation_def Let_def split: option.splits)

lemma findConversation_Some:
  "findConversation db cid uid = Some c \<Longrightarrow>
   c \<in> set (conversations db) \<and> conv_id c = cid \<and> conv_userId c = uid"
  by (auto simp: findConversation_def find_Some_iff)

lemma resolve_frame:
  assumes "resolveConversation E db uid message conversationId = (cur, db1)"
  shows "profiles db1 = profiles db \<and> users db1 = users db
         \<and> conversationMessages db1 = conversationMessages db \<and> clock db \<le> clock db1"
proof (cases "startsNewConversation db uid conversationId")
  case True
  from resolve_new [OF True, of E message] assms show ?thesis by auto
next
  case False
  from resolve_existing [OF False, of E message] assms show ?thesis by auto
qed

lemma resolve_owned:
  assumes "resolveConversation E db uid message conversationId = (cur, db1)"
  shows "\<exists>c \<in> set (conversations db1). conv_id c = cur \<and> conv_userId c = uid"
proof (cases "startsNewConversation db uid conversationId")
  case True
  from resolve_new [OF True, of E message] assms show ?thesis by auto
next
  case False
  from resolve_existing [OF False, of E message] assms findConversation_Some show ?thesis
    by fastforce
qed

lemma POST_turn:
  assumes auth: "getAuthenticatedUser E db = Some uid"
    and msg: "req_message body = Some message" "message \<noteq> []"
    and r: "resolveConversation E db uid message (req_conversationId body) = (cur, db1)"
  shows "POST E db body =
     (let db2 = snd (createMessage (newUserMessageId E) User message uid cur db1)
      in case getUserOpenAIClient E db uid of
           None \<Rightarrow>
             (JsonError 400 ''OpenAI API key not configured. Please add your API key in your profile settings.'', db2, [])
         | Some k \<Rightarrow>
             (let g = generateAIResponse E k message (systemPromptFor E db2 uid)
                        (rev (findRecentMessages db2 cur uid))
              in case fst g of
                   None \<Rightarrow> (JsonError 500 ''Failed to generate AI response. Please try again.'', db2, [snd g])
                 | Some text \<Rightarrow>
                     if text = [] then
                       (JsonError 500 ''Failed to generate AI response. Please try again.'', db2, [snd g])
                     else
                       (Json200 \<lparr> resp_id = newAssistantMessageId E, resp_role = Assistant,
                                  resp_content = text, resp_createdAt = clock db2,
                                  resp_conversationId = cur \<rparr>,
                        updateConversation cur text
                          (snd (createMessage (newAssistantMessageId E) Assistant text uid cur db2)),
                        [snd g])))"
proof -
  have p: "profiles (snd (createMessage (newUserMessageId E) User message uid cur db1)) = profiles db"
    using resolve_frame [OF r] by (simp add: createMessage_def Let_def)
  show ?thesis
    using auth msg r getUserOpenAIClient_frame [OF p, of E uid]
    by (auto simp: POST_def Let_def createMessage_def split: option.splits prod.splits)
qed

section \<open>The substring test and the state after an answered turn\<close>

lemma startsWith_iff: "startsWith s k \<longleftrightarrow> (\<exists>b. s = k @ b)"
proof
  assume "startsWith s k"
  then have "s = k @ drop (length k) s"
    unfolding startsWith_def by (metis append_take_drop_id)
  then show "\<exists>b. s = k @ b" ..
next
  assume "\<exists>b. s = k @ b"
  then show "startsWith s k" by (auto simp: startsWith_def)
qed

lemma js_includes_iff: "js_includes s k \<longleftrightarrow> (\<exists>a b. s = a @ k @ b)"
proof (induction s)
  case Nil
  show ?case by auto
next
  case (Cons c cs)
  show ?case
  proof
    assume "js_includes (c # cs) k"
    then consider "startsWith (c # cs) k" | "js_includes cs k" by auto
    then show "\<exists>a b. c # cs = a @ k @ b"
    proof cases
      case 1
      then obtain b where "c # cs = k @ b" unfolding startsWith_iff by blast
      then have "c # cs = [] @ k @ b" by simp
      then show ?thesis by blast
    next
      case 2
      with Cons.IH obtain a b where "cs = a @ k @ b" by blast
      then have "c # cs = (c # a) @ k @ b" by simp
      then show ?thesis by blast
    qed
  next
    assume "\<exists>a b. c # cs = a @ k @ b"
    then obtain a b where e: "c # cs = a @ k @ b" by blast
    show "js_includes (c # cs) k"
    proof (cases a)
      case Nil
      with e have "startsWith (c # cs) k" unfolding startsWith_iff by auto
      then show ?thesis by simp
    next
      case (Cons x a')
      with e have "cs = a' @ k @ b" by simp
      with Cons.IH have "js_includes cs k" by blast
      then show ?thesis by simp
    qed
  qed
qed

lemma mentions_code: "mentions message keyword = js_includes (toLowerCase message) keyword"
  by (simp add: mentions_def js_includes_iff)

lemma generateAIResponse_throws:
  assumes "completionsCreate E k (snd (generateAIResponse E k message sp recent)) = Throws"
  shows "fst (generateAIResponse E k message sp recent)
         = Some (if mentions message ''recipe'' \<or> mentions message ''meal'' then recipeFallback
                 else if mentions message ''workout'' \<or> mentions message ''exercise''
                 then workoutFallback else genericFallback)"
  using assms by (simp add: generateAIResponse_def Let_def mentions_code)

lemma fallbacks_nonempty:
  "recipeFallback \<noteq> []" "workoutFallback \<noteq> []" "genericFallback \<noteq> []"
  by (simp_all add: recipeFallback_def workoutFallback_def genericFallback_def)

lemma POST_sent:
  assumes auth: "getAuthenticatedUser E db = Some uid"
    and msg: "req_message body = Some message" "message \<noteq> []"
    and r: "resolveConversation E db uid message (req_conversationId body) = (cur, db1)"
    and client: "getUserOpenAIClient E db uid = Some k"
  shows "snd (snd (POST E db body))
         = [snd (generateAIResponse E k message
                   (systemPromptFor E (snd (createMessage (newUserMessageId E) User message uid cur db1)) uid)
                   (rev (findRecentMessages
                           (snd (createMessage (newUserMessageId E) User message uid cur db1)) cur uid)))]"
  unfolding POST_turn [OF auth msg r]
  by (simp add: client Let_def split: option.splits)

lemma answered_conversations:
  "conversations (updateConversation cur text (snd (createMessage mid r text uid cur db2)))
   = map (\<lambda>c. if conv_id c = cur
               then c\<lparr> conv_lastMessage := Some text, conv_updatedAt := Suc (clock db2) \<rparr>
               else c) (conversations db2)"
  by (simp add: updateConversation_def createMessage_def Let_def)

lemma answered_messages:
  "conversationMessages (updateConversation cur text (snd (createMessage mid r text uid cur db2)))
   = conversationMessages db2
     @ [\<lparr> msg_id = mid, msg_userId = uid, msg_conversationId = cur, msg_role = r,
          msg_content = text, msg_createdAt = clock db2 \<rparr>]"
  by (simp add: updateConversation_def createMessage_def Let_def)



lemma answered_lastMessage:
  assumes "c' \<in> set (conversations (updateConversation cur text
                                (snd (createMessage mid r text uid cur db2))))"
    and "conv_id c' = cur"
  shows "conv_lastMessage c' = Some text \<and> conv_updatedAt c' = Suc (clock db2)"
proof -
  let ?f = "\<lambda>c. if conv_id c = cur
               then c\<lparr> conv_lastMessage := Some text, conv_updatedAt := Suc (clock db2) \<rparr>
               else c"
  from assms(1) have "c' \<in> ?f ` set (conversations db2)"
    unfolding answered_conversations by (simp only: set_map)
  then obtain c where e: "c' = ?f c" by (rule imageE)
  show ?thesis
  proof (cases "conv_id c = cur")
    case True
    with e show ?thesis by simp
  next
    case False
    with e assms(2) show ?thesis by simp
  qed
qed

lemma answered_owned:
  assumes "c \<in> set (conversations db2)" "conv_id c = cur" "conv_userId c = uid"
  shows "\<exists>c' \<in> set (conversations (updateConversation cur text
                                     (snd (createMessage mid r text uid cur db2)))).
           conv_id c' = cur \<and> conv_userId c' = uid"
proof -
  let ?f = "\<lambda>c. if conv_id c = cur
               then c\<lparr> conv_lastMessage := Some text, conv_updatedAt := Suc (clock db2) \<rparr>
               else c"
  have "?f c \<in> ?f ` set (conversations db2)" using assms(1) by (rule imageI)
  then have "?f c \<in> set (conversations (updateConversation cur text
                                     (snd (createMessage mid r text uid cur db2))))"
    unfolding answered_conversations by (simp only: set_map)
  moreover have "conv_id (?f c) = cur \<and> conv_userId (?f c) = uid" using assms by simp
  ultimately show ?thesis by (rule bexI [rotated])
qed

section \<open>Further facts about a turn\<close>

lemma credentialUnusable_client:
  "credentialUnusable E db uid \<Longrightarrow> getUserOpenAIClient E db uid = None"
  by (auto simp: credentialUnusable_def getUserOpenAIClient_def split: option.splits)

lemma trim_Nil: "trim [] = []"
  by (simp add: trim_def trimStart_def trimEnd_def)

lemma generateAIResponse_answers:
  assumes "completionAnswers E k"
  shows "\<exists>text. fst (generateAIResponse E k message sp recent) = Some text \<and> text \<noteq> []"
proof -
  let ?msgs = "snd (generateAIResponse E k message sp recent)"
  show ?thesis
  proof (cases "completionsCreate E k ?msgs")
    case Throws
    from generateAIResponse_throws [OF this] show ?thesis
      by (simp add: fallbacks_nonempty)
  next
    case (Returns r)
    from assms have "case completionsCreate E k ?msgs of
               Throws \<Rightarrow> True
             | Returns r \<Rightarrow> (case r of None \<Rightarrow> False | Some text \<Rightarrow> trim text \<noteq> [])"
      unfolding completionAnswers_def by (rule spec)
    with Returns obtain t where t: "r = Some t" "trim t \<noteq> []"
      by (cases r) simp_all
    then have "t \<noteq> []" using trim_Nil by auto
    with Returns t show ?thesis
      by (simp add: generateAIResponse_def Let_def)
  qed
qed

lemma POST_user_message:
  assumes auth: "getAuthenticatedUser E db = Some uid"
    and msg: "req_message body = Some message" "message \<noteq> []"
    and r: "resolveConversation E db uid message (req_conversationId body) = (cur, db1)"
  shows "\<lparr> msg_id = newUserMessageId E, msg_userId = uid, msg_conversationId = cur,
           msg_role = User, msg_content = message, msg_createdAt = clock db1 \<rparr>
         \<in> set (conversationMessages (fst (snd (POST E db body))))"
proof -
  define db2 where "db2 = snd (createMessage (newUserMessageId E) User message uid cur db1)"
  let ?m = "\<lparr> msg_id = newUserMessageId E, msg_userId = uid, msg_conversationId = cur,
           msg_role = User, msg_content = message, msg_createdAt = clock db1 \<rparr>"
  have m2: "?m \<in> set (conversationMessages db2)"
    by (simp add: db2_def createMessage_def Let_def)
  then have m3: "?m \<in> set (conversationMessages (updateConversation cur t
                    (snd (createMessage mid ro t uid cur db2))))" for t mid ro
    unfolding answered_messages by simp
  show ?thesis
  proof (cases "getUserOpenAIClient E db uid")
    case None
    then show ?thesis
      unfolding POST_turn [OF auth msg r] using m2 by (simp add: Let_def db2_def)
  next
    case (Some k)
    define g where "g = generateAIResponse E k message (systemPromptFor E db2 uid)
                        (rev (findRecentMessages db2 cur uid))"
    show ?thesis
    proof (cases "fst g")
      case None
      then show ?thesis
        unfolding POST_turn [OF auth msg r] using m2 Some
        by (simp add: Let_def db2_def [symmetric] g_def [symmetric])
    next
      case (Some t)
      then show ?thesis
        unfolding POST_turn [OF auth msg r] using m2 m3 \<open>getUserOpenAIClient E db uid = Some k\<close>
        by (simp add: Let_def db2_def [symmetric] g_def [symmetric])
    qed
  qed
qed

lemma POST_answers:
  assumes auth: "getAuthenticatedUser E db = Some uid"
    and msg: "req_message body = Some message" "message \<noteq> []"
    and r: "resolveConversation E db uid message (req_conversationId body) = (cur, db1)"
    and client: "getUserOpenAIClient E db uid = Some k"
    and ans: "completionAnswers E k"
  shows "\<exists>tb. fst (POST E db body) = Json200 tb \<and> resp_conversationId tb = cur"
proof -
  define db2 where "db2 = snd (createMessage (newUserMessageId E) User message uid cur db1)"
  define g where "g = generateAIResponse E k message (systemPromptFor E db2 uid)
                        (rev (findRecentMessages db2 cur uid))"
  from generateAIResponse_answers [OF ans] obtain t where "fst g = Some t" "t \<noteq> []"
    unfolding g_def by blast
  then show ?thesis
    unfolding POST_turn [OF auth msg r]
    by (simp add: client Let_def db2_def [symmetric] g_def [symmetric])
qed





lemma POST_ok:
  assumes ok: "POST E db body = (Json200 tb, db', sent)"
  shows "\<exists>uid message cur db1 t.
           getAuthenticatedUser E db = Some uid
           \<and> req_message body = Some message \<and> message \<noteq> []
           \<and> resolveConversation E db uid message (req_conversationId body) = (cur, db1)
           \<and> t \<noteq> []
           \<and> tb = \<lparr> resp_id = newAssistantMessageId E, resp_role = Assistant, resp_content = t,
                     resp_createdAt = Suc (clock db1), resp_conversationId = cur \<rparr>
           \<and> db' = updateConversation cur t
                     (snd (createMessage (newAssistantMessageId E) Assistant t uid cur
                        (snd (createMessage (newUserMessageId E) User message uid cur db1))))"
proof -
  from ok obtain message where m: "req_message body = Some message" "message \<noteq> []"
    by (cases "req_message body") (auto simp: POST_def split: if_splits)
  with ok obtain uid where auth: "getAuthenticatedUser E db = Some uid"
    by (cases "getAuthenticatedUser E db") (auto simp: POST_def)
  obtain cur db1 where r: "resolveConversation E db uid message (req_conversationId body) = (cur, db1)"
    by (cases "resolveConversation E db uid message (req_conversationId body)")
  define db2 where "db2 = snd (createMessage (newUserMessageId E) User message uid cur db1)"
  have c2: "clock db2 = Suc (clock db1)" by (simp add: db2_def createMessage_def Let_def)
  from ok obtain k where client: "getUserOpenAIClient E db uid = Some k"
    unfolding POST_turn [OF auth m r]
    by (cases "getUserOpenAIClient E db uid") (simp_all add: Let_def)
  define g where "g = generateAIResponse E k message (systemPromptFor E db2 uid)
                        (rev (findRecentMessages db2 cur uid))"
  from ok obtain t where t: "fst g = Some t"
    unfolding POST_turn [OF auth m r]
    by (cases "fst g") (simp_all add: client Let_def db2_def [symmetric] g_def [symmetric])
  from ok t have "t \<noteq> []
           \<and> tb = \<lparr> resp_id = newAssistantMessageId E, resp_role = Assistant, resp_content = t,
                     resp_createdAt = Suc (clock db1), resp_conversationId = cur \<rparr>
           \<and> db' = updateConversation cur t
                     (snd (createMessage (newAssistantMessageId E) Assistant t uid cur db2))"
    unfolding POST_turn [OF auth m r]
    by (cases "t = []") (simp_all add: client Let_def db2_def [symmetric] g_def [symmetric] c2)
  with auth m r show ?thesis unfolding db2_def by blast
qed

lemma demo_auth: "getAuthenticatedUser demoEnv demoStore = Some ''u1''"
  by (simp add: getAuthenticatedUser_def demoEnv_def demoStore_def)

lemma demo_client: "getUserOpenAIClient demoEnv demoStore ''u1'' = Some (utf16 ''sk-abc'')"
  by code_simp

lemma demo_past: "timestampsPast demoStore"
  by code_simp

lemma demo_answers: "completionAnswers demoEnv k"
proof -
  have "trim '' Roast the vegetables. '' \<noteq> []" by code_simp
  then show ?thesis by (simp add: completionAnswers_def demoEnv_def)
qed

section \<open>The assistant turn\<close>

text \<open>
  Claim C1 as the specification states it: every append of a turn, that of the user's
  message included, leaves the conversation with the appended content as its last
  message. It fails on the append of the user's message to an existing conversation: the
  turn below stops at the missing credential with the message \<open>How many sets?\<close> stored
  in conversation \<open>cm2\<close>, whose row is untouched and still shows \<open>Start with squats.\<close>
\<close>

theorem user_append_counterexample:
  "fst (POST demoNoCredentialEnv demoStore demoForeignFollowUp)
     = JsonError 400 ''OpenAI API key not configured. Please add your API key in your profile settings.''
   \<and> conversationMessages (fst (snd (POST demoNoCredentialEnv demoStore demoForeignFollowUp)))
     = demoMessages @ [\<lparr> msg_id = ''m9u'', msg_userId = ''u2'', msg_conversationId = ''cm2'',
                           msg_role = User, msg_content = ''How many sets?'', msg_createdAt = 10 \<rparr>]
   \<and> findConversation (fst (snd (POST demoNoCredentialEnv demoStore demoForeignFollowUp))) ''cm2'' ''u2''
     = Some demoForeignConversation
   \<and> conv_lastMessage demoForeignConversation = Some ''Start with squats.''"
  by code_simp

text \<open>
  Claim C1, amended. In every turn that answers (status 200), the assistant message is the
  last message stored, the conversation of the response exists, its last-message text is
  the content of that message, and no conversation's updated-at is lower than before the
  turn (stored time stamps being in the past of the clock).
\<close>

theorem assistant_append_updates_conversation:
  assumes ok: "POST E db body = (Json200 tb, db', sent)"
    and past: "timestampsPast db"
  shows "(\<exists>earlier m. conversationMessages db' = earlier @ [m]
            \<and> msg_role m = Assistant \<and> msg_content m = resp_content tb
            \<and> msg_conversationId m = resp_conversationId tb)
         \<and> (\<exists>c \<in> set (conversations db'). conv_id c = resp_conversationId tb)
         \<and> (\<forall>c \<in> set (conversations db').
               conv_id c = resp_conversationId tb \<longrightarrow> conv_lastMessage c = Some (resp_content tb))
         \<and> length (conversations db) \<le> length (conversations db')
         \<and> (\<forall>i < length (conversations db).
               conv_id (conversations db' ! i) = conv_id (conversations db ! i)
               \<and> conv_updatedAt (conversations db ! i) \<le> conv_updatedAt (conversations db' ! i))"
proof -
  from POST_ok [OF ok] obtain uid message cur db1 t where
    r: "resolveConversation E db uid message (req_conversationId body) = (cur, db1)"
    and tb: "tb = \<lparr> resp_id = newAssistantMessageId E, resp_role = Assistant, resp_content = t,
                     resp_createdAt = Suc (clock db1), resp_conversationId = cur \<rparr>"
    and db': "db' = updateConversation cur t
                     (snd (createMessage (newAssistantMessageId E) Assistant t uid cur
                        (snd (createMessage (newUserMessageId E) User message uid cur db1))))"
    by blast
  define db2 where "db2 = snd (createMessage (newUserMessageId E) User message uid cur db1)"
  let ?f = "\<lambda>c. if conv_id c = cur
               then c\<lparr> conv_lastMessage := Some t, conv_updatedAt := Suc (clock db2) \<rparr>
               else c"
  have c2: "conversations db2 = conversations db1" "clock db2 = Suc (clock db1)"
    by (simp_all add: db2_def createMessage_def Let_def)
  have convs: "conversations db' = map ?f (conversations db1)"
    unfolding db' db2_def [symmetric] answered_conversations c2 by (rule refl)
  have appended: "\<exists>earlier m. conversationMessages db' = earlier @ [m]
            \<and> msg_role m = Assistant \<and> msg_content m = resp_content tb
            \<and> msg_conversationId m = resp_conversationId tb"
    unfolding db' db2_def [symmetric] answered_messages tb by auto
  from resolve_owned [OF r] obtain c where
    "c \<in> set (conversations db2)" "conv_id c = cur" "conv_userId c = uid"
    unfolding c2 by blast
  from answered_owned [OF this, of t "newAssistantMessageId E" Assistant]
  obtain c' where "c' \<in> set (conversations db')" "conv_id c' = cur"
    unfolding db' db2_def [symmetric] by blast
  then have present: "\<exists>c \<in> set (conversations db'). conv_id c = resp_conversationId tb"
    unfolding tb by (intro bexI [of _ c']) simp_all
  have lastm: "\<forall>c \<in> set (conversations db').
               conv_id c = resp_conversationId tb \<longrightarrow> conv_lastMessage c = Some (resp_content tb)"
  proof (intro ballI impI)
    fix c assume "c \<in> set (conversations db')" "conv_id c = resp_conversationId tb"
    then show "conv_lastMessage c = Some (resp_content tb)"
      unfolding db' db2_def [symmetric] using answered_lastMessage [of c cur t] by (simp add: tb)
  qed
  have pre: "\<exists>new. conversations db1 = conversations db @ new"
  proof (cases "startsNewConversation db uid (req_conversationId body)")
    case True
    from resolve_new [OF True, of E message] r show ?thesis by auto
  next
    case False
    from resolve_existing [OF False, of E message] r show ?thesis by auto
  qed
  then obtain new where new: "conversations db1 = conversations db @ new" ..
  have len: "length (conversations db) \<le> length (conversations db')"
    unfolding convs new by simp
  have clk: "clock db \<le> clock db1" using resolve_frame [OF r] by simp
  have mono: "\<forall>i < length (conversations db).
               conv_id (conversations db' ! i) = conv_id (conversations db ! i)
               \<and> conv_updatedAt (conversations db ! i) \<le> conv_updatedAt (conversations db' ! i)"
  proof (intro allI impI)
    fix i assume i: "i < length (conversations db)"
    let ?c = "conversations db ! i"
    have e: "conversations db' ! i = ?f ?c"
      unfolding convs new using i by (simp add: nth_append)
    have "?c \<in> set (conversations db)" using i by simp
    with past have "conv_updatedAt ?c < clock db" unfolding timestampsPast_def by blast
    with clk have "conv_updatedAt ?c \<le> Suc (clock db2)" unfolding c2 by simp
    then show "conv_id (conversations db' ! i) = conv_id ?c
               \<and> conv_updatedAt ?c \<le> conv_updatedAt (conversations db' ! i)"
      unfolding e by simp
  qed
  from appended present lastm len mono show ?thesis by (intro conjI)
qed

theorem assistant_append_updates_conversation_witness:
  "timestampsPast demoStore
   \<and> fst (POST demoEnv demoStore demoFollowUp)
       = Json200 \<lparr> resp_id = ''m9a'', resp_role = Assistant,
                   resp_content = ''Roast the vegetables.'', resp_createdAt = 11,
                   resp_conversationId = ''cm1'' \<rparr>
   \<and> (\<exists>c. findConversation (fst (snd (POST demoEnv demoStore demoFollowUp))) ''cm1'' ''u1'' = Some c
          \<and> conv_lastMessage c = Some ''Roast the vegetables.'')
   \<and> (\<exists>earlier m. conversationMessages (fst (snd (POST demoEnv demoStore demoFollowUp))) = earlier @ [m]
          \<and> msg_role m = Assistant \<and> msg_content m = ''Roast the vegetables.''
          \<and> msg_conversationId m = ''cm1'')"
proof -
  let ?tb = "\<lparr> resp_id = ''m9a'', resp_role = Assistant,
                   resp_content = ''Roast the vegetables.'', resp_createdAt = 11,
                   resp_conversationId = ''cm1'' \<rparr>"
  let ?db' = "fst (snd (POST demoEnv demoStore demoFollowUp))"
  have f: "fst (POST demoEnv demoStore demoFollowUp) = Json200 ?tb" by code_simp
  then have e: "POST demoEnv demoStore demoFollowUp
            = (Json200 ?tb, ?db', snd (snd (POST demoEnv demoStore demoFollowUp)))"
    by (simp add: prod_eq_iff)
  note t = assistant_append_updates_conversation [OF e demo_past]
  have "findConversation ?db' ''cm1'' ''u1'' \<noteq> None" by code_simp
  then obtain c where c: "findConversation ?db' ''cm1'' ''u1'' = Some c" by blast
  from findConversation_Some [OF c] have "c \<in> set (conversations ?db')" "conv_id c = ''cm1''"
    by simp_all
  with t have "conv_lastMessage c = Some ''Roast the vegetables.''" by simp
  with c have found: "\<exists>c. findConversation ?db' ''cm1'' ''u1'' = Some c
          \<and> conv_lastMessage c = Some ''Roast the vegetables.''" by blast
  from t have last: "\<exists>earlier m. conversationMessages ?db' = earlier @ [m]
          \<and> msg_role m = Assistant \<and> msg_content m = ''Roast the vegetables.''
          \<and> msg_conversationId m = ''cm1''" by simp
  from demo_past f found last show ?thesis by (intro conjI)
qed

text \<open>
  Claim C2. A turn whose conversation id is given but names no conversation of the caller
  runs exactly as the turn without an id: it creates a conversation for the caller, stores
  the user's message in it, and, when the credential loads and the completion call
  answers, returns status 200 with the id of the new conversation.
\<close>

theorem stale_conversation_starts_new:
  assumes auth: "getAuthenticatedUser E db = Some uid"
    and msg: "req_message body = Some message" "message \<noteq> []"
    and given: "req_conversationId body = Some cid"
    and stale: "findConversation db cid uid = None"
  shows "POST E db body = POST E db (body\<lparr> req_conversationId := None \<rparr>)
         \<and> (\<exists>c db1. resolveConversation E db uid message (Some cid) = (newConversationId E, db1)
                \<and> conversations db1 = conversations db @ [c]
                \<and> conv_id c = newConversationId E \<and> conv_userId c = uid)
         \<and> (\<exists>m \<in> set (conversationMessages (fst (snd (POST E db body)))).
                msg_role m = User \<and> msg_content m = message
                \<and> msg_conversationId m = newConversationId E \<and> msg_userId m = uid)
         \<and> (\<forall>k. getUserOpenAIClient E db uid = Some k \<and> completionAnswers E k \<longrightarrow>
                (\<exists>tb. fst (POST E db body) = Json200 tb
                      \<and> resp_conversationId tb = newConversationId E))"
proof -
  have new: "startsNewConversation db uid (Some cid)"
    using stale by (simp add: startsNewConversation_def)
  have new': "startsNewConversation db uid None"
    by (simp add: startsNewConversation_def)
  define db1 where "db1 = db\<lparr> conversations := conversations db
                   @ [\<lparr> conv_id = newConversationId E, conv_userId = uid,
                         conv_title = generateConversationTitle message,
                         conv_lastMessage = Some message,
                         conv_createdAt = clock db, conv_updatedAt = clock db \<rparr>],
                clock := Suc (clock db) \<rparr>"
  have r: "resolveConversation E db uid message (req_conversationId body) = (newConversationId E, db1)"
    unfolding given db1_def by (rule resolve_new [OF new])
  have r': "resolveConversation E db uid message (req_conversationId (body\<lparr> req_conversationId := None \<rparr>))
              = (newConversationId E, db1)"
    unfolding db1_def using resolve_new [OF new', of E message] by simp
  have msg': "req_message (body\<lparr> req_conversationId := None \<rparr>) = Some message"
    using msg(1) by simp
  have same: "POST E db body = POST E db (body\<lparr> req_conversationId := None \<rparr>)"
    unfolding POST_turn [OF auth msg r] POST_turn [OF auth msg' msg(2) r'] by (rule refl)
  have created: "\<exists>c db1. resolveConversation E db uid message (Some cid) = (newConversationId E, db1)
                \<and> conversations db1 = conversations db @ [c]
                \<and> conv_id c = newConversationId E \<and> conv_userId c = uid"
    using r unfolding given db1_def
    by (intro exI [of _ "\<lparr> conv_id = newConversationId E, conv_userId = uid,
                         conv_title = generateConversationTitle message,
                         conv_lastMessage = Some message,
                         conv_createdAt = clock db, conv_updatedAt = clock db \<rparr>"] exI [of _ db1])
       (simp add: db1_def)
  have stored: "\<exists>m \<in> set (conversationMessages (fst (snd (POST E db body)))).
                msg_role m = User \<and> msg_content m = message
                \<and> msg_conversationId m = newConversationId E \<and> msg_userId m = uid"
    using POST_user_message [OF auth msg r] by (rule bexI [rotated]) simp
  have answered: "\<forall>k. getUserOpenAIClient E db uid = Some k \<and> completionAnswers E k \<longrightarrow>
                (\<exists>tb. fst (POST E db body) = Json200 tb
                      \<and> resp_conversationId tb = newConversationId E)"
    using POST_answers [OF auth msg r] by blast
  from same created stored answered show ?thesis by (intro conjI)
qed

theorem stale_conversation_starts_new_witness:
  "getAuthenticatedUser demoEnv demoStore = Some ''u1''
   \<and> req_conversationId demoStaleRequest = Some ''cm2''
   \<and> findConversation demoStore ''cm2'' ''u1'' = None
   \<and> getUserOpenAIClient demoEnv demoStore ''u1'' = Some (utf16 ''sk-abc'')
   \<and> completionAnswers demoEnv (utf16 ''sk-abc'')
   \<and> POST demoEnv demoStore demoStaleRequest
       = POST demoEnv demoStore (demoStaleRequest\<lparr> req_conversationId := None \<rparr>)
   \<and> (\<exists>tb. fst (POST demoEnv demoStore demoStaleRequest) = Json200 tb
           \<and> resp_conversationId tb = ''cm9'')"
proof -
  have m: "req_message demoStaleRequest = Some ''Any meal ideas for tonight?''"
          "''Any meal ideas for tonight?'' \<noteq> []"
    by (simp_all add: demoStaleRequest_def)
  have g: "req_conversationId demoStaleRequest = Some ''cm2''"
    by (simp add: demoStaleRequest_def)
  have s: "findConversation demoStore ''cm2'' ''u1'' = None" by code_simp
  have n: "newConversationId demoEnv = ''cm9''" by (simp add: demoEnv_def)
  note t = stale_conversation_starts_new [OF demo_auth m g s]
  from t have same: "POST demoEnv demoStore demoStaleRequest
       = POST demoEnv demoStore (demoStaleRequest\<lparr> req_conversationId := None \<rparr>)"
    by (rule conjunct1)
  from t have "\<forall>k. getUserOpenAIClient demoEnv demoStore ''u1'' = Some k \<and> completionAnswers demoEnv k \<longrightarrow>
                (\<exists>tb. fst (POST demoEnv demoStore demoStaleRequest) = Json200 tb
                      \<and> resp_conversationId tb = newConversationId demoEnv)"
    by blast
  with demo_client demo_answers n
  have ok: "\<exists>tb. fst (POST demoEnv demoStore demoStaleRequest) = Json200 tb
           \<and> resp_conversationId tb = ''cm9''"
    by simp
  from demo_auth g s demo_client demo_answers same ok show ?thesis by (intro conjI)
qed

text \<open>
  Claim C3. When the completion call of a turn throws, the turn answers with status 200:
  the content is the recipe text when the message mentions \<open>recipe\<close> or \<open>meal\<close>,
  else the workout text when it mentions \<open>workout\<close> or \<open>exercise\<close>, else the
  generic text; this content is stored as the last message of the conversation, with the
  assistant role and the id, time and conversation of the response, and it is the
  conversation's last-message text.
\<close>

theorem completion_failure_fallback:
  assumes auth: "getAuthenticatedUser E db = Some uid"
    and msg: "req_message body = Some message" "message \<noteq> []"
    and client: "getUserOpenAIClient E db uid = Some k"
    and sent: "snd (snd (POST E db body)) = [sent]"
    and throws: "completionsCreate E k sent = Throws"
  shows "\<exists>tb db' earlier.
           POST E db body = (Json200 tb, db', [sent])
           \<and> resp_role tb = Assistant
           \<and> resp_content tb
               = (if mentions message ''recipe'' \<or> mentions message ''meal'' then recipeFallback
                  else if mentions message ''workout'' \<or> mentions message ''exercise''
                  then workoutFallback else genericFallback)
           \<and> conversationMessages db'
               = earlier @ [\<lparr> msg_id = resp_id tb, msg_userId = uid,
                               msg_conversationId = resp_conversationId tb, msg_role = Assistant,
                               msg_content = resp_content tb, msg_createdAt = resp_createdAt tb \<rparr>]
           \<and> (\<exists>c \<in> set (conversations db'). conv_id c = resp_conversationId tb \<and> conv_userId c = uid)
           \<and> (\<forall>c \<in> set (conversations db').
                 conv_id c = resp_conversationId tb \<longrightarrow> conv_lastMessage c = Some (resp_content tb))"
proof -
  obtain cur db1 where r: "resolveConversation E db uid message (req_conversationId body) = (cur, db1)"
    by (cases "resolveConversation E db uid message (req_conversationId body)")
  define db2 where "db2 = snd (createMessage (newUserMessageId E) User message uid cur db1)"
  define g where "g = generateAIResponse E k message (systemPromptFor E db2 uid)
                        (rev (findRecentMessages db2 cur uid))"
  define fb where "fb = (if mentions message ''recipe'' \<or> mentions message ''meal'' then recipeFallback
                  else if mentions message ''workout'' \<or> mentions message ''exercise''
                  then workoutFallback else genericFallback)"
  define tb where "tb = \<lparr> resp_id = newAssistantMessageId E, resp_role = Assistant,
                 resp_content = fb, resp_createdAt = clock db2, resp_conversationId = cur \<rparr>"
  define db' where "db' = updateConversation cur fb
         (snd (createMessage (newAssistantMessageId E) Assistant fb uid cur db2))"
  have s: "snd g = sent"
    using POST_sent [OF auth msg r client] sent by (simp add: g_def db2_def)
  with throws have "fst g = Some fb"
    unfolding g_def fb_def by (intro generateAIResponse_throws) simp
  moreover have "fb \<noteq> []" by (simp add: fb_def fallbacks_nonempty)
  ultimately have p: "POST E db body = (Json200 tb, db', [sent])"
    using s unfolding POST_turn [OF auth msg r] tb_def db'_def
    by (simp add: client Let_def db2_def [symmetric] g_def [symmetric])
  from resolve_owned [OF r] obtain c where
    "c \<in> set (conversations db1)" "conv_id c = cur" "conv_userId c = uid" by blast
  then have "c \<in> set (conversations db2)" "conv_id c = cur" "conv_userId c = uid"
    by (simp_all add: db2_def createMessage_def Let_def)
  then have owned: "\<exists>c \<in> set (conversations db'). conv_id c = resp_conversationId tb \<and> conv_userId c = uid"
    unfolding db'_def using answered_owned [of c db2 cur uid] by (simp add: tb_def)
  have lastm: "\<forall>c \<in> set (conversations db').
                 conv_id c = resp_conversationId tb \<longrightarrow> conv_lastMessage c = Some (resp_content tb)"
  proof (intro ballI impI)
    fix c assume "c \<in> set (conversations db')" "conv_id c = resp_conversationId tb"
    then show "conv_lastMessage c = Some (resp_content tb)"
      unfolding db'_def using answered_lastMessage [of c cur fb] by (simp add: tb_def)
  qed
  have msgs: "conversationMessages db'
               = conversationMessages db2
                 @ [\<lparr> msg_id = resp_id tb, msg_userId = uid,
                       msg_conversationId = resp_conversationId tb, msg_role = Assistant,
                       msg_content = resp_content tb, msg_createdAt = resp_createdAt tb \<rparr>]"
    unfolding db'_def answered_messages by (simp add: tb_def)
  have "resp_role tb = Assistant" "resp_content tb = fb" by (simp_all add: tb_def)
  from p owned lastm msgs \<open>resp_role tb = Assistant\<close> \<open>resp_content tb = fb\<close>
  have "POST E db body = (Json200 tb, db', [sent])
           \<and> resp_role tb = Assistant
           \<and> resp_content tb = fb
           \<and> conversationMessages db'
               = conversationMessages db2 @ [\<lparr> msg_id = resp_id tb, msg_userId = uid,
                               msg_conversationId = resp_conversationId tb, msg_role = Assistant,
                               msg_content = resp_content tb, msg_createdAt = resp_createdAt tb \<rparr>]
           \<and> (\<exists>c \<in> set (conversations db'). conv_id c = resp_conversationId tb \<and> conv_userId c = uid)
           \<and> (\<forall>c \<in> set (conversations db').
                 conv_id c = resp_conversationId tb \<longrightarrow> conv_lastMessage c = Some (resp_content tb))"
    by (intro conjI)
  then show ?thesis unfolding fb_def by (intro exI)
qed

theorem completion_failure_fallback_witness:
  "getAuthenticatedUser demoThrowingEnv demoStore = Some ''u1''
   \<and> getUserOpenAIClient demoThrowingEnv demoStore ''u1'' = Some (utf16 ''sk-abc'')
   \<and> mentions ''Any MEAL ideas for breakfast?'' ''meal''
   \<and> (\<exists>tb db' sent. POST demoThrowingEnv demoStore demoFollowUp = (Json200 tb, db', [sent])
          \<and> completionsCreate demoThrowingEnv (utf16 ''sk-abc'') sent = Throws
          \<and> resp_content tb = recipeFallback
          \<and> (\<forall>c \<in> set (conversations db').
                 conv_id c = resp_conversationId tb \<longrightarrow> conv_lastMessage c = Some recipeFallback))"
proof -
  have a: "getAuthenticatedUser demoThrowingEnv demoStore = Some ''u1''" by code_simp
  have c: "getUserOpenAIClient demoThrowingEnv demoStore ''u1'' = Some (utf16 ''sk-abc'')" by code_simp
  have m: "req_message demoFollowUp = Some ''Any MEAL ideas for breakfast?''"
          "''Any MEAL ideas for breakfast?'' \<noteq> []"
    by (simp_all add: demoFollowUp_def)
  have k: "mentions ''Any MEAL ideas for breakfast?'' ''meal''"
    unfolding mentions_code by code_simp
  obtain cur db1 where r: "resolveConversation demoThrowingEnv demoStore ''u1''
                             ''Any MEAL ideas for breakfast?'' (req_conversationId demoFollowUp) = (cur, db1)"
    by (cases "resolveConversation demoThrowingEnv demoStore ''u1''
                             ''Any MEAL ideas for breakfast?'' (req_conversationId demoFollowUp)")
  from POST_sent [OF a m r c] obtain sent where
    s: "snd (snd (POST demoThrowingEnv demoStore demoFollowUp)) = [sent]" by blast
  have t: "completionsCreate demoThrowingEnv (utf16 ''sk-abc'') sent = Throws"
    by (simp add: demoThrowingEnv_def)
  from completion_failure_fallback [OF a m c s t] a c k t
  show ?thesis by auto
qed

text \<open>
  Claim C4. When the caller's stored credential is absent or does not decrypt, the turn
  ends with status 400 and the message that asks for the API key, makes no completion
  call, and leaves the store with the user's message appended to the resolved
  conversation, which the caller owns.
\<close>

theorem credential_missing_after_persist:
  assumes auth: "getAuthenticatedUser E db = Some uid"
    and msg: "req_message body = Some message" "message \<noteq> []"
    and cred: "credentialUnusable E db uid"
  shows "\<exists>cur db1.
           resolveConversation E db uid message (req_conversationId body) = (cur, db1)
           \<and> POST E db body
               = (JsonError 400 ''OpenAI API key not configured. Please add your API key in your profile settings.'',
                  db1\<lparr> conversationMessages := conversationMessages db1
                          @ [\<lparr> msg_id = newUserMessageId E, msg_userId = uid,
                                msg_conversationId = cur, msg_role = User,
                                msg_content = message, msg_createdAt = clock db1 \<rparr>],
                       clock := Suc (clock db1) \<rparr>,
                  [])
           \<and> (\<exists>c \<in> set (conversations db1). conv_id c = cur \<and> conv_userId c = uid)"
proof -
  obtain cur db1 where r: "resolveConversation E db uid message (req_conversationId body) = (cur, db1)"
    by (cases "resolveConversation E db uid message (req_conversationId body)")
  have "POST E db body
               = (JsonError 400 ''OpenAI API key not configured. Please add your API key in your profile settings.'',
                  db1\<lparr> conversationMessages := conversationMessages db1
                          @ [\<lparr> msg_id = newUserMessageId E, msg_userId = uid,
                                msg_conversationId = cur, msg_role = User,
                                msg_content = message, msg_createdAt = clock db1 \<rparr>],
                       clock := Suc (clock db1) \<rparr>,
                  [])"
    unfolding POST_turn [OF auth msg r]
    by (simp add: credentialUnusable_client [OF cred] createMessage_def Let_def)
  with r resolve_owned [OF r] show ?thesis by blast
qed

theorem credential_missing_after_persist_witness:
  "getAuthenticatedUser demoNoCredentialEnv demoStore = Some ''u2''
   \<and> credentialUnusable demoNoCredentialEnv demoStore ''u2''
   \<and> getAuthenticatedUser demoEnv demoCorruptStore = Some ''u1''
   \<and> credentialUnusable demoEnv demoCorruptStore ''u1''
   \<and> fst (POST demoNoCredentialEnv demoStore demoForeignFollowUp)
       = JsonError 400 ''OpenAI API key not configured. Please add your API key in your profile settings.''
   \<and> fst (POST demoEnv demoCorruptStore demoFollowUp)
       = JsonError 400 ''OpenAI API key not configured. Please add your API key in your profile settings.''"
proof -
  have a: "getAuthenticatedUser demoNoCredentialEnv demoStore = Some ''u2''" by code_simp
  have c: "credentialUnusable demoNoCredentialEnv demoStore ''u2''" by code_simp
  have m: "req_message demoForeignFollowUp = Some ''How many sets?''" "''How many sets?'' \<noteq> []"
    by (simp_all add: demoForeignFollowUp_def)
  have a': "getAuthenticatedUser demoEnv demoCorruptStore = Some ''u1''" by code_simp
  have c': "credentialUnusable demoEnv demoCorruptStore ''u1''" by code_simp
  have m': "req_message demoFollowUp = Some ''Any MEAL ideas for breakfast?''"
          "''Any MEAL ideas for breakfast?'' \<noteq> []"
    by (simp_all add: demoFollowUp_def)
  from credential_missing_after_persist [OF a m c] credential_missing_after_persist [OF a' m' c']
       a c a' c'
  show ?thesis by auto
qed

text \<open>
  Claim C5. A turn that creates a conversation (no id, a blank id, or an id of no
  conversation of the caller) appends one conversation whose last message is the message
  text and whose title is derived from the trimmed text: \<open>w\<close> is that text when it has at
  most three spaces, and otherwise its part before the fourth space; the title is the
  placeholder \<open>New Conversation\<close> when the trimmed text is empty, the first 30
  characters of \<open>w\<close> followed by three dots when \<open>w\<close> is longer than 30, and
  otherwise \<open>w\<close> without trailing white space. The title is never empty.
\<close>

theorem new_conversation_title:
  assumes new: "startsNewConversation db uid conversationId"
  shows "\<exists>c w. resolveConversation E db uid message conversationId
                 = (newConversationId E,
                    db\<lparr> conversations := conversations db @ [c], clock := Suc (clock db) \<rparr>)
          \<and> conv_id c = newConversationId E \<and> conv_userId c = uid
          \<and> conv_lastMessage c = Some message
          \<and> (if count_list (trim message) (CHR '' '') \<le> 3 then w = trim message
              else count_list w (CHR '' '') = 3 \<and> (\<exists>rest. trim message = w @ CHR '' '' # rest))
          \<and> conv_title c = (if trim message = [] then ''New Conversation''
                            else if length w > 30 then take 30 w @ ''...''
                            else trimEnd w)
          \<and> conv_title c \<noteq> []"
proof -
  define w where "w = js_join '' '' (take 4 (js_split (CHR '' '') (trim message)))"
  have w3: "w = js_join [CHR '' ''] (take (Suc 3) (js_split (CHR '' '') (trim message)))"
    by (simp add: w_def)
  have fields: "if count_list (trim message) (CHR '' '') \<le> 3 then w = trim message
              else count_list w (CHR '' '') = 3 \<and> (\<exists>rest. trim message = w @ CHR '' '' # rest)"
  proof (cases "count_list (trim message) (CHR '' '') \<le> 3")
    case True
    then show ?thesis using first_fields_few [of "trim message" "CHR '' ''" 3] w3 by simp
  next
    case False
    then have "3 < count_list (trim message) (CHR '' '')" by simp
    from first_fields_many [OF this] False show ?thesis unfolding w3 by auto
  qed
  have title: "generateConversationTitle message
                 = (if trim message = [] then ''New Conversation''
                    else if length w > 30 then take 30 w @ ''...'' else trimEnd w)"
    unfolding w_def by (rule title_characterised(1))
  have ne: "generateConversationTitle message \<noteq> []" by (rule title_characterised(2))
  show ?thesis
    using resolve_new [OF new, of E message] fields title ne
    by (intro exI [of _ "\<lparr> conv_id = newConversationId E, conv_userId = uid,
                         conv_title = generateConversationTitle message,
                         conv_lastMessage = Some message,
                         conv_createdAt = clock db, conv_updatedAt = clock db \<rparr>"]
              exI [of _ w]) simp
qed

theorem new_conversation_title_witness:
  "startsNewConversation demoStore ''u1'' None
   \<and> (\<exists>c. resolveConversation demoEnv demoStore ''u1'' ''What should I eat?'' None
                 = (''cm9'', demoStore\<lparr> conversations := conversations demoStore @ [c],
                                       clock := Suc (clock demoStore) \<rparr>)
          \<and> conv_lastMessage c = Some ''What should I eat?''
          \<and> conv_title c = ''What should I eat?'')"
proof -
  have n: "startsNewConversation demoStore ''u1'' None"
    by (simp add: startsNewConversation_def)
  have t: "trim ''What should I eat?'' = ''What should I eat?''"
    by (simp add: trim_def trimStart_def trimEnd_def isWhiteSpace_def)
  have e: "trimEnd ''What should I eat?'' = ''What should I eat?''"
    by (simp add: trimEnd_def isWhiteSpace_def)
  have i: "newConversationId demoEnv = ''cm9''" by (simp add: demoEnv_def)
  from new_conversation_title [OF n, of demoEnv "''What should I eat?''"]
  obtain c w where
    r: "resolveConversation demoEnv demoStore ''u1'' ''What should I eat?'' None
          = (newConversationId demoEnv,
             demoStore\<lparr> conversations := conversations demoStore @ [c], clock := Suc (clock demoStore) \<rparr>)"
    and l: "conv_lastMessage c = Some ''What should I eat?''"
    and f: "if count_list (trim ''What should I eat?'') (CHR '' '') \<le> 3 then w = trim ''What should I eat?''
              else count_list w (CHR '' '') = 3 \<and> (\<exists>rest. trim ''What should I eat?'' = w @ CHR '' '' # rest)"
    and ti: "conv_title c = (if trim ''What should I eat?'' = [] then ''New Conversation''
                            else if length w > 30 then take 30 w @ ''...''
                            else trimEnd w)"
    by blast
  from f have "w = ''What should I eat?''" by (simp add: t)
  with ti have "conv_title c = ''What should I eat?''" by (simp add: t e)
  with r l n i show ?thesis by auto
qed



end
